theory Spec2Isabelle
  imports Complex_Main
begin

section \<open>Exceptions\<close>

text \<open>
  The exceptions that the scanner can raise, as values.  \<open>KeyError\<close> carries the missing
  key.  \<open>DoltHubAPIError\<close> is the plain \<^verbatim>\<open>Exception("DoltHub API error: ...")\<close> raised by
  \<^verbatim>\<open>fetch_dolthub_options\<close> on a status other than 200; \<open>RequestException\<close> is what
  \<^verbatim>\<open>requests.get\<close> raises, \<open>JSONDecodeError\<close> what \<^verbatim>\<open>response.json()\<close> raises on a body that
  is not JSON, and \<open>StorageError\<close> what \<^verbatim>\<open>collection.insert_one\<close> raises.
\<close>

datatype error =
    KeyError string
  | TypeError
  | ValueError
  | AttributeError
  | ZeroDivisionError
  | DoltHubAPIError string
  | RequestException
  | JSONDecodeError
  | StorageError

section \<open>Calendar dates\<close>

text \<open>
  \<^verbatim>\<open>datetime.datetime.strptime(s, "%Y-%m-%d")\<close> compiles the format to the regular expression
  \<^verbatim>\<open>(?P<Y>\d\d\d\d)-(?P<m>1[0-2]|0[1-9]|[1-9])-(?P<d>3[0-1]|[1-2]\d|0[1-9]|[1-9]| [1-9])\<close>,
  matches it at the start of the string, raises \<^verbatim>\<open>ValueError\<close> when there is no match or
  when text remains after the match, and raises \<^verbatim>\<open>ValueError\<close> again when the three numbers
  are not a date of the proleptic Gregorian calendar with a year in 1..9999.
  Strings are byte strings here, so \<^verbatim>\<open>\d\<close> is an ASCII digit.
\<close>

definition in_range :: "char \<Rightarrow> char \<Rightarrow> char \<Rightarrow> bool" where
  "in_range lo hi c = ((of_char lo :: nat) \<le> of_char c \<and> (of_char c :: nat) \<le> of_char hi)"

definition is_digit :: "char \<Rightarrow> bool" where
  "is_digit c = in_range (CHR ''0'') (CHR ''9'') c"

definition digit_val :: "char \<Rightarrow> nat" where
  "digit_val c = of_char c - 48"

text \<open>The alternatives of a group, in the order the regular expression tries them:
  each is the number read and the text that follows it.\<close>

definition month_alts :: "string \<Rightarrow> (nat \<times> string) list" where
  "month_alts s =
     (case s of
        a # b # cs \<Rightarrow>
          (if a = CHR ''1'' \<and> in_range (CHR ''0'') (CHR ''2'') b
           then [(10 + digit_val b, cs)] else []) @
          (if a = CHR ''0'' \<and> in_range (CHR ''1'') (CHR ''9'') b
           then [(digit_val b, cs)] else [])
      | _ \<Rightarrow> []) @
     (case s of
        a # cs \<Rightarrow> (if in_range (CHR ''1'') (CHR ''9'') a then [(digit_val a, cs)] else [])
      | [] \<Rightarrow> [])"

definition day_alts :: "string \<Rightarrow> (nat \<times> string) list" where
  "day_alts s =
     (case s of
        a # b # cs \<Rightarrow>
          (if a = CHR ''3'' \<and> in_range (CHR ''0'') (CHR ''1'') b
           then [(30 + digit_val b, cs)] else []) @
          (if in_range (CHR ''1'') (CHR ''2'') a \<and> is_digit b
           then [(10 * digit_val a + digit_val b, cs)] else []) @
          (if a = CHR ''0'' \<and> in_range (CHR ''1'') (CHR ''9'') b
           then [(digit_val b, cs)] else [])
      | _ \<Rightarrow> []) @
     (case s of
        a # cs \<Rightarrow> (if in_range (CHR ''1'') (CHR ''9'') a then [(digit_val a, cs)] else [])
      | [] \<Rightarrow> []) @
     (case s of
        a # b # cs \<Rightarrow>
          (if a = CHR '' '' \<and> in_range (CHR ''1'') (CHR ''9'') b
           then [(digit_val b, cs)] else [])
      | _ \<Rightarrow> [])"

text \<open>After a month alternative the expression needs \<^verbatim>\<open>-\<close> and a day; when that fails the
  next month alternative is tried.  The first day alternative that matches ends the match.\<close>

fun match_month_day :: "(nat \<times> string) list \<Rightarrow> (nat \<times> nat \<times> string) option" where
  "match_month_day [] = None"
| "match_month_day ((m, rest) # alts) =
     (case rest of
        c # rest' \<Rightarrow>
          (if c = CHR ''-'' then
             (case day_alts rest' of
                [] \<Rightarrow> match_month_day alts
              | (d, rest'') # _ \<Rightarrow> Some (m, d, rest''))
           else match_month_day alts)
      | [] \<Rightarrow> match_month_day alts)"

definition regex_match :: "string \<Rightarrow> (nat \<times> nat \<times> nat \<times> string) option" where
  "regex_match s =
     (case s of
        y1 # y2 # y3 # y4 # c # rest \<Rightarrow>
          (if is_digit y1 \<and> is_digit y2 \<and> is_digit y3 \<and> is_digit y4 \<and> c = CHR ''-'' then
             (case match_month_day (month_alts rest) of
                None \<Rightarrow> None
              | Some (m, d, rest') \<Rightarrow>
                  Some (1000 * digit_val y1 + 100 * digit_val y2 + 10 * digit_val y3 + digit_val y4,
                        m, d, rest'))
           else None)
      | _ \<Rightarrow> None)"

record date =
  year :: nat
  month :: nat
  day :: nat

definition is_leap :: "nat \<Rightarrow> bool" where
  "is_leap y = (y mod 4 = 0 \<and> (y mod 100 \<noteq> 0 \<or> y mod 400 = 0))"

definition DAYS_IN_MONTH :: "nat list" where
  "DAYS_IN_MONTH = [0, 31, 28, 31, 30, 31, 30, 31, 31, 30, 31, 30, 31]"

definition DAYS_BEFORE_MONTH :: "nat list" where
  "DAYS_BEFORE_MONTH = [0, 0, 31, 59, 90, 120, 151, 181, 212, 243, 273, 304, 334]"

definition days_in_month :: "nat \<Rightarrow> nat \<Rightarrow> nat" where
  "days_in_month y m = (if m = 2 \<and> is_leap y then 29 else DAYS_IN_MONTH ! m)"

definition days_before_year :: "nat \<Rightarrow> nat" where
  "days_before_year y = (y - 1) * 365 + (y - 1) div 4 - (y - 1) div 100 + (y - 1) div 400"

definition days_before_month :: "nat \<Rightarrow> nat \<Rightarrow> nat" where
  "days_before_month y m = DAYS_BEFORE_MONTH ! m + (if m > 2 \<and> is_leap y then 1 else 0)"

text \<open>The checks of the \<^verbatim>\<open>date\<close> constructor (\<^verbatim>\<open>MINYEAR = 1\<close>, \<^verbatim>\<open>MAXYEAR = 9999\<close>).\<close>

definition valid_date :: "nat \<Rightarrow> nat \<Rightarrow> nat \<Rightarrow> bool" where
  "valid_date y m d =
     (1 \<le> y \<and> y \<le> 9999 \<and> 1 \<le> m \<and> m \<le> 12 \<and> 1 \<le> d \<and> d \<le> days_in_month y m)"

definition toordinal :: "date \<Rightarrow> nat" where
  "toordinal dt = days_before_year (year dt) + days_before_month (year dt) (month dt) + day dt"

definition strptime :: "string \<Rightarrow> error + date" where
  "strptime s =
     (case regex_match s of
        None \<Rightarrow> Inl ValueError
      | Some (y, m, d, rest) \<Rightarrow>
          if rest \<noteq> [] then Inl ValueError
          else if valid_date y m d then Inr \<lparr>year = y, month = m, day = d\<rparr>
          else Inl ValueError)"


text \<open>Calendar order of two dates, and the length of a year.\<close>

definition on_or_before :: "date \<Rightarrow> date \<Rightarrow> bool" where
  "on_or_before a b =
     (year a < year b \<or> (year a = year b \<and>
        (month a < month b \<or> (month a = month b \<and> day a \<le> day b))))"

definition valid :: "date \<Rightarrow> bool" where
  "valid dt = valid_date (year dt) (month dt) (day dt)"

definition year_len :: "nat \<Rightarrow> nat" where
  "year_len y = (if is_leap y then 366 else 365)"

text \<open>A string is a parseable date when \<^verbatim>\<open>strptime\<close> returns a date for it.\<close>

definition parseable :: "string \<Rightarrow> bool" where
  "parseable s = (case strptime s of Inl _ \<Rightarrow> False | Inr _ \<Rightarrow> True)"

text \<open>The ISO form \<^verbatim>\<open>YYYY-MM-DD\<close> of a date, as \<^verbatim>\<open>date.isoformat()\<close> writes it.\<close>

definition digit_char :: "nat \<Rightarrow> char" where
  "digit_char n = ''0123456789'' ! n"

definition two_digits :: "nat \<Rightarrow> string" where
  "two_digits n = [digit_char (n div 10), digit_char (n mod 10)]"

definition four_digits :: "nat \<Rightarrow> string" where
  "four_digits n = [digit_char (n div 1000), digit_char (n div 100 mod 10),
     digit_char (n div 10 mod 10), digit_char (n mod 10)]"

definition isoformat :: "date \<Rightarrow> string" where
  "isoformat dt = four_digits (year dt) @ ''-'' @ two_digits (month dt) @ ''-'' @ two_digits (day dt)"

section \<open>Time to expiration\<close>

text \<open>
  \<^verbatim>\<open>time_to_expiration\<close>: both dates are parsed (the expiration first), the difference of the
  two midnights is a whole number of days, and the year fraction is clamped from below.
  Floats are modelled as reals throughout.
\<close>

definition time_to_expiration :: "string \<Rightarrow> string \<Rightarrow> error + real" where
  "time_to_expiration expiration_date reference_date =
     (case strptime expiration_date of
        Inl e \<Rightarrow> Inl e
      | Inr exp_date \<Rightarrow>
          (case strptime reference_date of
             Inl e \<Rightarrow> Inl e
           | Inr ref_date \<Rightarrow>
               (let t = real_of_int (int (toordinal exp_date) - int (toordinal ref_date)) / 365
                in Inr (max t 0.0001))))"

section \<open>Black-Scholes prices\<close>

text \<open>
  \<^verbatim>\<open>scipy.stats.norm.cdf\<close> is the distribution function of the standard normal law, here
  by its power series around 0:
  \<open>1/2 + (\<Sum>n. (-1)^n x^(2n+1) / (2^n n! (2n+1))) / sqrt (2 pi)\<close>.
  That this is the function with value 1/2 at 0 and the normal density as derivative is
  proved below.
\<close>

definition norm_cdf_term :: "real \<Rightarrow> nat \<Rightarrow> real" where
  "norm_cdf_term x n = (- 1) ^ n * x ^ (2 * n + 1) / (2 ^ n * fact n * real (2 * n + 1))"

definition norm_cdf :: "real \<Rightarrow> real" where
  "norm_cdf x = 1 / 2 + (\<Sum>n. norm_cdf_term x n) / sqrt (2 * pi)"

text \<open>Coefficients of the power series of \<open>norm_cdf\<close>, by powers of \<open>x\<close>.\<close>

definition cdf_coeff :: "nat \<Rightarrow> real" where
  "cdf_coeff k = (if even k then 0
     else (- 1) ^ ((k - 1) div 2) / (2 ^ ((k - 1) div 2) * fact ((k - 1) div 2) * real k))"

text \<open>
  A \<^verbatim>\<open>numpy.float64\<close> is a number, an infinity or \<^verbatim>\<open>nan\<close>.  numpy's arithmetic does not
  raise: a division by zero gives an infinity or \<^verbatim>\<open>nan\<close>, the logarithm of 0 is \<open>-inf\<close>, the
  logarithm and the square root of a negative number are \<^verbatim>\<open>nan\<close>.  The operations below
  are those of IEEE 754 without rounding and without overflow; the reals have one zero, so
  the negative zero of the floats is read as 0.
\<close>

datatype npfloat = Finite real | PInf | NInf | NaN

fun np_neg :: "npfloat \<Rightarrow> npfloat" where
  "np_neg (Finite a) = Finite (- a)"
| "np_neg PInf = NInf"
| "np_neg NInf = PInf"
| "np_neg NaN = NaN"

fun np_add :: "npfloat \<Rightarrow> npfloat \<Rightarrow> npfloat" where
  "np_add (Finite a) (Finite b) = Finite (a + b)"
| "np_add NaN y = NaN"
| "np_add x NaN = NaN"
| "np_add PInf NInf = NaN"
| "np_add NInf PInf = NaN"
| "np_add PInf y = PInf"
| "np_add x PInf = PInf"
| "np_add NInf y = NInf"
| "np_add x NInf = NInf"

definition np_sub :: "npfloat \<Rightarrow> npfloat \<Rightarrow> npfloat" where
  "np_sub x y = np_add x (np_neg y)"

fun np_mul :: "npfloat \<Rightarrow> npfloat \<Rightarrow> npfloat" where
  "np_mul (Finite a) (Finite b) = Finite (a * b)"
| "np_mul NaN y = NaN"
| "np_mul x NaN = NaN"
| "np_mul (Finite a) PInf = (if a = 0 then NaN else if 0 < a then PInf else NInf)"
| "np_mul (Finite a) NInf = (if a = 0 then NaN else if 0 < a then NInf else PInf)"
| "np_mul PInf (Finite b) = (if b = 0 then NaN else if 0 < b then PInf else NInf)"
| "np_mul NInf (Finite b) = (if b = 0 then NaN else if 0 < b then NInf else PInf)"
| "np_mul PInf PInf = PInf"
| "np_mul PInf NInf = NInf"
| "np_mul NInf PInf = NInf"
| "np_mul NInf NInf = PInf"

fun np_div :: "npfloat \<Rightarrow> npfloat \<Rightarrow> npfloat" where
  "np_div (Finite a) (Finite b) =
     (if b \<noteq> 0 then Finite (a / b)
      else if 0 < a then PInf else if a < 0 then NInf else NaN)"
| "np_div NaN y = NaN"
| "np_div x NaN = NaN"
| "np_div (Finite a) PInf = Finite 0"
| "np_div (Finite a) NInf = Finite 0"
| "np_div PInf (Finite b) = (if b < 0 then NInf else PInf)"
| "np_div NInf (Finite b) = (if b < 0 then PInf else NInf)"
| "np_div PInf PInf = NaN"
| "np_div PInf NInf = NaN"
| "np_div NInf PInf = NaN"
| "np_div NInf NInf = NaN"

definition np_log :: "real \<Rightarrow> npfloat" where
  "np_log x = (if 0 < x then Finite (ln x) else if x = 0 then NInf else NaN)"

definition np_sqrt :: "real \<Rightarrow> npfloat" where
  "np_sqrt x = (if 0 \<le> x then Finite (sqrt x) else NaN)"

definition np_exp :: "real \<Rightarrow> npfloat" where
  "np_exp x = Finite (exp x)"

text \<open>\<^verbatim>\<open>norm.cdf\<close> on a \<^verbatim>\<open>float64\<close>: 1 at \<open>inf\<close>, 0 at \<open>-inf\<close>, \<^verbatim>\<open>nan\<close> at \<^verbatim>\<open>nan\<close>.\<close>

fun norm_cdf_np :: "npfloat \<Rightarrow> npfloat" where
  "norm_cdf_np (Finite x) = Finite (norm_cdf x)"
| "norm_cdf_np PInf = Finite 1"
| "norm_cdf_np NInf = Finite 0"
| "norm_cdf_np NaN = NaN"

text \<open>\<^verbatim>\<open>a < b\<close> for a Python float \<open>a\<close> and a \<^verbatim>\<open>float64\<close> \<open>b\<close>: false when \<open>b\<close> is \<^verbatim>\<open>nan\<close>.\<close>

fun py_less :: "real \<Rightarrow> npfloat \<Rightarrow> bool" where
  "py_less a (Finite b) = (a < b)"
| "py_less a PInf = True"
| "py_less a NInf = False"
| "py_less a NaN = False"

text \<open>
  The two pricing functions.  \<^verbatim>\<open>S/K\<close> divides two Python floats and raises
  \<^verbatim>\<open>ZeroDivisionError\<close> for \<open>K = 0\<close>; \<^verbatim>\<open>(r + 0.5 * sigma**2) * t\<close> and \<^verbatim>\<open>-r * t\<close> are Python
  floats; every other operation is numpy's.
\<close>

definition black_scholes_call :: "real \<Rightarrow> real \<Rightarrow> real \<Rightarrow> real \<Rightarrow> real \<Rightarrow> error + npfloat" where
  "black_scholes_call S K sigma r t =
     (if K = 0 then Inl ZeroDivisionError
      else
        let d1 = np_div (np_add (np_log (S / K)) (Finite ((r + 0.5 * sigma\<^sup>2) * t)))
                   (np_mul (Finite sigma) (np_sqrt t));
            d2 = np_sub d1 (np_mul (Finite sigma) (np_sqrt t))
        in Inr (np_sub (np_mul (Finite S) (norm_cdf_np d1))
                  (np_mul (np_mul (Finite K) (np_exp (- r * t))) (norm_cdf_np d2))))"

definition black_scholes_put :: "real \<Rightarrow> real \<Rightarrow> real \<Rightarrow> real \<Rightarrow> real \<Rightarrow> error + npfloat" where
  "black_scholes_put S K sigma r t =
     (if K = 0 then Inl ZeroDivisionError
      else
        let d1 = np_div (np_add (np_log (S / K)) (Finite ((r + 0.5 * sigma\<^sup>2) * t)))
                   (np_mul (Finite sigma) (np_sqrt t));
            d2 = np_sub d1 (np_mul (Finite sigma) (np_sqrt t))
        in Inr (np_sub (np_mul (np_mul (Finite K) (np_exp (- r * t))) (norm_cdf_np (np_neg d2)))
                  (np_mul (Finite S) (norm_cdf_np (np_neg d1)))))"

text \<open>The formulas of the specification, term by term, for comparison with the code.\<close>

definition spec_d1 :: "real \<Rightarrow> real \<Rightarrow> real \<Rightarrow> real \<Rightarrow> real \<Rightarrow> real" where
  "spec_d1 S K sigma r t = (ln (S / K) + (r + sigma\<^sup>2 / 2) * t) / (sigma * sqrt t)"

definition spec_d2 :: "real \<Rightarrow> real \<Rightarrow> real \<Rightarrow> real \<Rightarrow> real \<Rightarrow> real" where
  "spec_d2 S K sigma r t = spec_d1 S K sigma r t - sigma * sqrt t"

definition spec_price_call :: "real \<Rightarrow> real \<Rightarrow> real \<Rightarrow> real \<Rightarrow> real \<Rightarrow> real" where
  "spec_price_call S K sigma r t =
     S * norm_cdf (spec_d1 S K sigma r t) - K * exp (- (r * t)) * norm_cdf (spec_d2 S K sigma r t)"

definition spec_price_put :: "real \<Rightarrow> real \<Rightarrow> real \<Rightarrow> real \<Rightarrow> real \<Rightarrow> real" where
  "spec_price_put S K sigma r t =
     K * exp (- (r * t)) * norm_cdf (- spec_d2 S K sigma r t) - S * norm_cdf (- spec_d1 S K sigma r t)"


section \<open>JSON values as Python sees them\<close>

text \<open>
  \<^verbatim>\<open>response.json()\<close> yields \<^verbatim>\<open>None\<close>, booleans, ints, floats, strings, lists and dicts.
  A dict is the list of its items.  Floats are reals.
\<close>

datatype json =
    JNull
  | JBool bool
  | JInt int
  | JFloat real
  | JStr string
  | JArr "json list"
  | JObj "(string \<times> json) list"

text \<open>Truth value of an object, as \<^verbatim>\<open>if x\<close> and \<^verbatim>\<open>not x\<close> test it.\<close>

fun truthy :: "json \<Rightarrow> bool" where
  "truthy JNull = False"
| "truthy (JBool b) = b"
| "truthy (JInt i) = (i \<noteq> 0)"
| "truthy (JFloat x) = (x \<noteq> 0)"
| "truthy (JStr s) = (s \<noteq> [])"
| "truthy (JArr xs) = (xs \<noteq> [])"
| "truthy (JObj kvs) = (kvs \<noteq> [])"

text \<open>\<^verbatim>\<open>x[key]\<close> with a string key: only a dict accepts it.\<close>

fun getitem :: "json \<Rightarrow> string \<Rightarrow> error + json" where
  "getitem (JObj kvs) key = (case map_of kvs key of None \<Rightarrow> Inl (KeyError key) | Some v \<Rightarrow> Inr v)"
| "getitem _ key = Inl TypeError"

text \<open>\<^verbatim>\<open>len(x)\<close> and the items that \<^verbatim>\<open>for option in x\<close> visits.  Iterating a string gives
  its characters, iterating a dict its keys.\<close>

fun py_len :: "json \<Rightarrow> error + nat" where
  "py_len (JStr s) = Inr (length s)"
| "py_len (JArr xs) = Inr (length xs)"
| "py_len (JObj kvs) = Inr (length kvs)"
| "py_len _ = Inl TypeError"

fun py_iter :: "json \<Rightarrow> json list" where
  "py_iter (JStr s) = map (\<lambda>c. JStr [c]) s"
| "py_iter (JArr xs) = xs"
| "py_iter (JObj kvs) = map (\<lambda>kv. JStr (fst kv)) kvs"
| "py_iter _ = []"

text \<open>\<^verbatim>\<open>x.replace('-', '')\<close>: only a string has the method.\<close>

fun replace_dash :: "json \<Rightarrow> error + string" where
  "replace_dash (JStr s) = Inr (filter (\<lambda>c. c \<noteq> CHR ''-'') s)"
| "replace_dash _ = Inl AttributeError"

section \<open>The collaborators\<close>

record response =
  status_code :: int
  text_body :: string
  json_body :: "json option"

text \<open>A flagged contract as the scan stores and returns it.  The one-letter keys of the
  source dict carry the prefix \<open>val_\<close>.  The theoretical price and the undervaluation come
  from numpy's arithmetic and are \<^verbatim>\<open>float64\<close> values.\<close>

record valuation_result =
  RecordId :: string
  UnderlyingTicker :: string
  OptionTicker :: string
  OptionType :: string
  val_S :: real
  val_K :: real
  val_sigma :: real
  val_r :: real
  val_t :: real
  MarketPrice :: real
  BlackScholesPrice :: npfloat
  Undervaluation :: npfloat

text \<open>
  What the scan takes from outside the repository:
  \<^item> \<open>float_of_str\<close>: Python's \<^verbatim>\<open>float\<close> on a string (\<open>None\<close> is \<^verbatim>\<open>ValueError\<close>); the
    reals have no \<^verbatim>\<open>inf\<close> and no \<^verbatim>\<open>nan\<close>, and no \<^verbatim>\<open>OverflowError\<close> for large ints;
  \<^item> \<open>str_of\<close>: Python's \<^verbatim>\<open>str\<close> on a value that is not a string;
  \<^item> \<open>now_iso\<close>: \<^verbatim>\<open>datetime.now(UTC).isoformat()\<close> while the row with this index is processed;
  \<^item> \<open>http_get\<close>: \<^verbatim>\<open>requests.get\<close>, which raises or gives a response; \<open>json_body\<close> is
    \<open>None\<close> when the body is not JSON;
  \<^item> \<open>insert_raises\<close>: whether \<^verbatim>\<open>collection.insert_one\<close> raises for this document, given the
    documents inserted before.
\<close>

record env =
  float_of_str :: "string \<Rightarrow> real option"
  str_of :: "json \<Rightarrow> string"
  now_iso :: "nat \<Rightarrow> string"
  http_get :: "string \<Rightarrow> error + response"
  insert_raises :: "valuation_result list \<Rightarrow> valuation_result \<Rightarrow> bool"

text \<open>\<^verbatim>\<open>float(x)\<close>.\<close>

fun py_float :: "env \<Rightarrow> json \<Rightarrow> error + real" where
  "py_float E (JBool b) = Inr (if b then 1 else 0)"
| "py_float E (JInt i) = Inr (real_of_int i)"
| "py_float E (JFloat x) = Inr x"
| "py_float E (JStr s) = (case float_of_str E s of None \<Rightarrow> Inl ValueError | Some x \<Rightarrow> Inr x)"
| "py_float E _ = Inl TypeError"

text \<open>A value inside an f-string.\<close>

fun py_str :: "env \<Rightarrow> json \<Rightarrow> string" where
  "py_str E (JStr s) = s"
| "py_str E v = str_of E v"

section \<open>Fetching the option chain\<close>

fun str_nat :: "nat \<Rightarrow> string" where
  "str_nat n = (if n < 10 then [digit_char n] else str_nat (n div 10) @ [digit_char (n mod 10)])"

declare str_nat.simps [simp del]

definition str_int :: "int \<Rightarrow> string" where
  "str_int i = (if i < 0 then CHR ''-'' # str_nat (nat (- i)) else str_nat (nat i))"

definition dolthub_url :: "string \<Rightarrow> string \<Rightarrow> int \<Rightarrow> string" where
  "dolthub_url ticker date limit =
     ''https://www.dolthub.com/api/v1alpha1/post-no-preference/options/master?'' @
     ''q=SELECT * FROM option_chain WHERE act_symbol = '' @ [CHR 0x27] @ ticker @ [CHR 0x27] @
     '' AND date = '' @ [CHR 0x27] @ date @ [CHR 0x27] @ '' LIMIT '' @ str_int limit"

text \<open>Bind of the exception monad: the first exception ends the computation.\<close>

definition bind :: "error + 'a \<Rightarrow> ('a \<Rightarrow> error + 'b) \<Rightarrow> error + 'b" where
  "bind m f = (case m of Inl e \<Rightarrow> Inl e | Inr x \<Rightarrow> f x)"

text \<open>
  \<^verbatim>\<open>fetch_dolthub_options\<close>.  The \<^verbatim>\<open>except\<close> clause logs and re-raises, so every exception
  leaves the function unchanged.  \<^verbatim>\<open>data.get\<close> exists on a dict only.
\<close>

definition fetch_dolthub_options :: "env \<Rightarrow> string \<Rightarrow> string \<Rightarrow> int \<Rightarrow> error + json" where
  "fetch_dolthub_options E ticker date limit =
     (case http_get E (dolthub_url ticker date limit) of
        Inl e \<Rightarrow> Inl e
      | Inr response \<Rightarrow>
          if status_code response \<noteq> 200
          then Inl (DoltHubAPIError (''DoltHub API error: '' @ text_body response))
          else
            (case json_body response of
               None \<Rightarrow> Inl JSONDecodeError
             | Some data \<Rightarrow>
                 (case data of
                    JObj kvs \<Rightarrow>
                      (if map_of kvs ''query_execution_status'' = Some (JStr ''Success'')
                          \<and> map_of kvs ''rows'' \<noteq> None
                       then getitem data ''rows''
                       else Inr (JArr []))
                  | _ \<Rightarrow> Inl AttributeError)))"

section \<open>The scan\<close>

text \<open>The values that the loop body derives from a row before it compares prices
  (lines 76 to 84 of the source).\<close>

record pricing =
  is_call :: bool
  ticker :: string
  strike_K :: real
  market_price :: real
  sigma_used :: real
  t_used :: real
  bs_price :: npfloat

definition derive :: "env \<Rightarrow> string \<Rightarrow> real \<Rightarrow> real \<Rightarrow> string \<Rightarrow> real \<Rightarrow> json \<Rightarrow> error + pricing" where
  "derive E underlying_ticker r sigma_default test_date S option =
     bind (getitem option ''call_put'') (\<lambda>call_put.
     let is_call = (call_put = JStr ''Call'') in
     bind (getitem option ''expiration'') (\<lambda>expiration.
     bind (replace_dash expiration) (\<lambda>expiration_digits.
     bind (getitem option ''strike'') (\<lambda>strike.
     let ticker = underlying_ticker @ expiration_digits @ (if is_call then ''C'' else ''P'')
                    @ py_str E strike in
     bind (py_float E strike) (\<lambda>K.
     bind (getitem option ''bid'') (\<lambda>bid.
     bind (py_float E bid) (\<lambda>bid_f.
     bind (getitem option ''ask'') (\<lambda>ask.
     bind (py_float E ask) (\<lambda>ask_f.
     let market_price = (bid_f + ask_f) / 2 in
     bind (getitem option ''vol'') (\<lambda>vol.
     bind (if truthy vol then py_float E vol else Inr sigma_default) (\<lambda>sigma.
     bind (case expiration of JStr expiration_date \<Rightarrow> time_to_expiration expiration_date test_date
           | _ \<Rightarrow> Inl TypeError) (\<lambda>t.
     bind (if is_call then black_scholes_call S K sigma r t else black_scholes_put S K sigma r t)
     (\<lambda>bs_price.
       Inr \<lparr>is_call = is_call, ticker = ticker, strike_K = K, market_price = market_price,
            sigma_used = sigma, t_used = t, bs_price = bs_price\<rparr>)))))))))))))"

text \<open>The comparison and the result record (lines 88 to 102).\<close>

definition flag :: "string \<Rightarrow> real \<Rightarrow> real \<Rightarrow> string \<Rightarrow> pricing \<Rightarrow> valuation_result option" where
  "flag underlying_ticker r S record_id p =
     (if py_less (market_price p) (bs_price p) then
        Some \<lparr>RecordId = record_id,
              UnderlyingTicker = underlying_ticker,
              OptionTicker = ticker p,
              OptionType = (if is_call p then ''Call'' else ''Put''),
              val_S = S, val_K = strike_K p, val_sigma = sigma_used p, val_r = r, val_t = t_used p,
              MarketPrice = market_price p,
              BlackScholesPrice = bs_price p,
              Undervaluation = np_sub (bs_price p) (Finite (market_price p))\<rparr>
      else None)"

text \<open>The part of the loop body that decides about one row: the derivation and the
  comparison, with the time stamp taken when the row with index \<open>i\<close> is processed.\<close>

definition classify ::
  "env \<Rightarrow> string \<Rightarrow> real \<Rightarrow> real \<Rightarrow> string \<Rightarrow> real \<Rightarrow> nat \<Rightarrow> json \<Rightarrow>
   error + valuation_result option" where
  "classify E underlying_ticker r sigma_default test_date S i option =
     bind (derive E underlying_ticker r sigma_default test_date S option)
       (\<lambda>p. Inr (flag underlying_ticker r S (now_iso E i) p))"

text \<open>
  The loop over the rows.  The state is the collection of stored documents and the list
  \<^verbatim>\<open>undervalued_options\<close>; \<open>i\<close> counts the rows already processed.  An exception ends the
  scan and leaves what was inserted before in the collection.
\<close>

fun scan_rows ::
  "env \<Rightarrow> string \<Rightarrow> real \<Rightarrow> real \<Rightarrow> string \<Rightarrow> real \<Rightarrow> json list \<Rightarrow> nat \<Rightarrow>
   valuation_result list \<Rightarrow> valuation_result list \<Rightarrow>
   (error + valuation_result list) \<times> valuation_result list" where
  "scan_rows E underlying_ticker r sigma_default test_date S [] i collection undervalued_options =
     (Inr undervalued_options, collection)"
| "scan_rows E underlying_ticker r sigma_default test_date S (option # rest) i collection
     undervalued_options =
     (case classify E underlying_ticker r sigma_default test_date S i option of
        Inl e \<Rightarrow> (Inl e, collection)
      | Inr None \<Rightarrow>
          scan_rows E underlying_ticker r sigma_default test_date S rest (Suc i) collection
            undervalued_options
      | Inr (Some result) \<Rightarrow>
          if insert_raises E collection result then (Inl StorageError, collection)
          else scan_rows E underlying_ticker r sigma_default test_date S rest (Suc i)
                 (collection @ [result]) (undervalued_options @ [result]))"

text \<open>The results that the loop body produces on a list of rows, the first row having
  index \<open>i\<close>.\<close>

definition flagged ::
  "env \<Rightarrow> string \<Rightarrow> real \<Rightarrow> real \<Rightarrow> string \<Rightarrow> real \<Rightarrow> nat \<Rightarrow> json list \<Rightarrow> valuation_result list" where
  "flagged E underlying_ticker r sigma_default test_date S i rows =
     List.map_filter
       (\<lambda>(j, option). case classify E underlying_ticker r sigma_default test_date S j option of
                         Inl e \<Rightarrow> None | Inr out \<Rightarrow> out)
       (zip [i..<i + length rows] rows)"

text \<open>
  \<^verbatim>\<open>scan_options\<close>.  The chain is fetched with the default \<^verbatim>\<open>limit=100\<close>;
  \<^verbatim>\<open>len(options_data)\<close> is evaluated for the log line; \<open>S\<close> is the constant of line 72.
\<close>

definition scan_options ::
  "env \<Rightarrow> string \<Rightarrow> real \<Rightarrow> real \<Rightarrow> string \<Rightarrow> valuation_result list \<Rightarrow>
   (error + valuation_result list) \<times> valuation_result list" where
  "scan_options E underlying_ticker r sigma_default test_date collection =
     (case fetch_dolthub_options E underlying_ticker test_date 100 of
        Inl e \<Rightarrow> (Inl e, collection)
      | Inr options_data \<Rightarrow>
          (case py_len options_data of
             Inl e \<Rightarrow> (Inl e, collection)
           | Inr n \<Rightarrow>
               if \<not> truthy options_data then (Inr [], collection)
               else
                 let S = 175.84 in
                 scan_rows E underlying_ticker r sigma_default test_date S (py_iter options_data) 0
                   collection []))"

section \<open>A concrete chain\<close>

text \<open>
  A row as DoltHub sends it (every value a string): a call on the underlying with strike
  100 that expires on 2023-11-17, quoted at 1.00 / 2.00.  \<open>example_floats\<close> is Python's
  \<^verbatim>\<open>float\<close> on the strings that occur in it.
\<close>

definition example_row :: json where
  "example_row = JObj
     [(''date'', JStr ''2023-10-18''), (''act_symbol'', JStr ''AAPL''),
      (''expiration'', JStr ''2023-11-17''), (''strike'', JStr ''100.00''),
      (''call_put'', JStr ''Call''), (''bid'', JStr ''1.00''), (''ask'', JStr ''2.00''),
      (''vol'', JStr ''0.2500'')]"

definition example_floats :: "string \<Rightarrow> real option" where
  "example_floats = map_of
     [(''100.00'', 100), (''1.00'', 1), (''2.00'', 2), (''0.2500'', 0.25), (''50.00'', 50),
      (''0.0000'', 0)]"

text \<open>A data source that answers the query of the scan for one ticker and date with
  the given response and refuses every other request; a clock that stands still; a store
  that accepts every document.\<close>

definition example_env :: "string \<Rightarrow> string \<Rightarrow> response \<Rightarrow> env" where
  "example_env underlying_ticker test_date response =
     \<lparr>float_of_str = example_floats,
      str_of = (\<lambda>v. ''None''),
      now_iso = (\<lambda>i. ''2023-10-18T00:00:00+00:00''),
      http_get = (\<lambda>url. if url = dolthub_url underlying_ticker test_date 100
                        then Inr response else Inl RequestException),
      insert_raises = (\<lambda>collection result. False)\<rparr>"

definition ok_response :: "json \<Rightarrow> response" where
  "ok_response data = \<lparr>status_code = 200, text_body = [], json_body = Some data\<rparr>"

definition success_body :: "json \<Rightarrow> json" where
  "success_body rows = JObj [(''query_execution_status'', JStr ''Success''), (''rows'', rows)]"

text \<open>A body that reports a query that could not be executed.\<close>

definition error_body :: json where
  "error_body = JObj
     [(''query_execution_status'', JStr ''Error''),
      (''query_execution_message'', JStr ''table not found: option_chain'')]"

text \<open>The result of the scan for \<open>example_row\<close> at rate 0.05.\<close>

definition example_result :: "string \<Rightarrow> real \<Rightarrow> valuation_result" where
  "example_result underlying_ticker t =
     \<lparr>RecordId = ''2023-10-18T00:00:00+00:00'',
      UnderlyingTicker = underlying_ticker,
      OptionTicker = underlying_ticker @ ''20231117C100.00'',
      OptionType = ''Call'',
      val_S = 175.84, val_K = 100, val_sigma = 0.25, val_r = 0.05, val_t = t,
      MarketPrice = 1.5,
      BlackScholesPrice = Finite (spec_price_call 175.84 100 0.25 0.05 t),
      Undervaluation = Finite (spec_price_call 175.84 100 0.25 0.05 t - 1.5)\<rparr>"

text \<open>The same call with a given value in the volatility field, and without the field.\<close>

definition row_with_vol :: "json \<Rightarrow> json" where
  "row_with_vol v = JObj
     [(''expiration'', JStr ''2023-11-17''), (''strike'', JStr ''100.00''),
      (''call_put'', JStr ''Call''), (''bid'', JStr ''1.00''), (''ask'', JStr ''2.00''),
      (''vol'', v)]"

definition example_row_no_vol :: json where
  "example_row_no_vol = JObj
     [(''expiration'', JStr ''2023-11-17''), (''strike'', JStr ''100.00''),
      (''call_put'', JStr ''Call''), (''bid'', JStr ''1.00''), (''ask'', JStr ''2.00'')]"

text \<open>The same call quoted at 50.00 / 50.00 with the volatility \<^verbatim>\<open>"0.0000"\<close>.\<close>

definition example_row_zero_vol :: json where
  "example_row_zero_vol = JObj
     [(''expiration'', JStr ''2023-11-17''), (''strike'', JStr ''100.00''),
      (''call_put'', JStr ''Call''), (''bid'', JStr ''50.00''), (''ask'', JStr ''50.00''),
      (''vol'', JStr ''0.0000'')]"

text \<open>
  The data source keeps to the limit of a query when the \<open>rows\<close> of its answer, as the
  scan will iterate over them, are no more than the limit.
\<close>

definition keeps_limit :: "env \<Rightarrow> string \<Rightarrow> string \<Rightarrow> int \<Rightarrow> bool" where
  "keeps_limit E underlying_ticker test_date limit =
     (case http_get E (dolthub_url underlying_ticker test_date limit) of
        Inl e \<Rightarrow> True
      | Inr response \<Rightarrow>
          (case json_body response of
             Some (JObj kvs) \<Rightarrow>
               (case map_of kvs ''rows'' of
                  None \<Rightarrow> True
                | Some rows \<Rightarrow> int (length (py_iter rows)) \<le> limit)
           | _ \<Rightarrow> True))"

section \<open>The normal distribution function\<close>

text \<open>The series converges everywhere, \<open>norm_cdf 0 = 1/2\<close>, and the derivative of \<open>norm_cdf\<close> is the
  density \<open>exp (- x\<^sup>2 / 2) / sqrt (2 pi)\<close>: this determines the standard normal distribution
  function.  It is symmetric and strictly increasing.\<close>

lemma norm_cdf_term_alt:
  "norm_cdf_term x n = (- 1) ^ n * (x * (inverse (fact n) * (x\<^sup>2 / 2) ^ n)) / real (2 * n + 1)"
proof -
  have "x ^ (2 * n + 1) = x * (x\<^sup>2) ^ n"
    by (simp add: power_mult)
  then show ?thesis
    unfolding norm_cdf_term_def power_divide by (simp add: field_simps)
qed

lemma norm_cdf_term_bound:
  "norm (norm_cdf_term x n) \<le> \<bar>x\<bar> * (inverse (fact n) * (x\<^sup>2 / 2) ^ n)"
proof -
  have nonneg: "0 \<le> \<bar>x\<bar> * (inverse (fact n) * (x\<^sup>2 / 2) ^ n)"
    by (intro mult_nonneg_nonneg zero_le_power) auto
  have "norm (norm_cdf_term x n) = (\<bar>x\<bar> * (inverse (fact n) * (x\<^sup>2 / 2) ^ n)) / real (2 * n + 1)"
    unfolding norm_cdf_term_alt real_norm_def abs_divide abs_mult power_abs
    by (simp add: abs_mult power_abs)
  also have "\<dots> \<le> (\<bar>x\<bar> * (inverse (fact n) * (x\<^sup>2 / 2) ^ n)) / 1"
    using nonneg by (intro divide_left_mono) auto
  finally show ?thesis
    by simp
qed

lemma summable_norm_cdf_term: "summable (norm_cdf_term x)"
proof (rule summable_comparison_test')
  show "summable (\<lambda>n. \<bar>x\<bar> * (inverse (fact n) * (x\<^sup>2 / 2) ^ n))"
    by (intro summable_mult summable_exp)
  show "\<And>n. n \<ge> 0 \<Longrightarrow> norm (norm_cdf_term x n) \<le> \<bar>x\<bar> * (inverse (fact n) * (x\<^sup>2 / 2) ^ n)"
    by (rule norm_cdf_term_bound)
qed

lemma norm_cdf_term_minus: "norm_cdf_term (- x) n = - norm_cdf_term x n"
  by (simp add: norm_cdf_term_def)

lemma norm_cdf_minus: "norm_cdf (- x) = 1 - norm_cdf x"
proof -
  have "(\<Sum>n. norm_cdf_term (- x) n) = (\<Sum>n. - norm_cdf_term x n)"
    by (simp add: norm_cdf_term_minus)
  also have "\<dots> = - (\<Sum>n. norm_cdf_term x n)"
    by (rule suminf_minus) (rule summable_norm_cdf_term)
  finally show ?thesis
    by (simp add: norm_cdf_def)
qed

lemma norm_cdf_0: "norm_cdf 0 = 1 / 2"
  by (simp add: norm_cdf_def norm_cdf_term_def)

lemma cdf_coeff_sums: "(\<lambda>k. cdf_coeff k * x ^ k) sums (\<Sum>n. norm_cdf_term x n)"
proof -
  have "(\<lambda>k. if even k then 0 else norm_cdf_term x ((k - 1) div 2)) sums (\<Sum>n. norm_cdf_term x n)"
    by (intro sums_if' summable_sums summable_norm_cdf_term)
  moreover have "(if even k then 0 else norm_cdf_term x ((k - 1) div 2)) = cdf_coeff k * x ^ k" for k
  proof (cases "even k")
    case True
    then show ?thesis by (simp add: cdf_coeff_def)
  next
    case False
    then obtain m where k: "k = 2 * m + 1"
      by (auto elim: oddE)
    show ?thesis
      by (simp add: k cdf_coeff_def norm_cdf_term_def)
  qed
  ultimately show ?thesis
    by simp
qed

lemma diffs_cdf_coeff:
  "diffs cdf_coeff k = (if even k then (- 1) ^ (k div 2) / (2 ^ (k div 2) * fact (k div 2)) else 0)"
proof (cases "even k")
  case True
  then obtain m where k: "k = 2 * m"
    by (auto elim: evenE)
  show ?thesis
    by (simp add: k diffs_def cdf_coeff_def)
next
  case False
  then show ?thesis
    by (simp add: diffs_def cdf_coeff_def)
qed

lemma diffs_cdf_coeff_sums: "(\<lambda>k. diffs cdf_coeff k * x ^ k) sums exp (- (x\<^sup>2 / 2))"
proof -
  define g where "g = (\<lambda>n. (- (x\<^sup>2 / 2)) ^ n /\<^sub>R fact n)"
  have "g sums exp (- (x\<^sup>2 / 2))"
    unfolding g_def by (rule exp_converges)
  from sums_if[OF sums_zero this]
  have "(\<lambda>k. if even k then g (k div 2) else 0) sums exp (- (x\<^sup>2 / 2))"
    by simp
  moreover have "(if even k then g (k div 2) else 0) = diffs cdf_coeff k * x ^ k" for k
  proof (cases "even k")
    case True
    then obtain m where k: "k = 2 * m"
      by (auto elim: evenE)
    have "(- (x\<^sup>2 / 2)) ^ m = (- 1) ^ m * x ^ (2 * m) / 2 ^ m"
      by (simp add: power_minus[of "x\<^sup>2 / 2"] power_divide power_mult)
    moreover have "inverse c * (a * b / d) = a / (d * c) * b" for a b c d :: real
      by (simp add: divide_simps)
    ultimately have "g m = (- 1) ^ m / (2 ^ m * fact m) * x ^ (2 * m)"
      unfolding g_def real_scaleR_def by (simp only:)
    then have "(if even k then g (k div 2) else 0) = (- 1) ^ m / (2 ^ m * fact m) * x ^ (2 * m)"
      by (simp add: k)
    moreover have "diffs cdf_coeff k = (- 1) ^ m / (2 ^ m * fact m)"
      by (simp add: k diffs_cdf_coeff)
    ultimately show ?thesis
      by (simp only: k)
  next
    case False
    then show ?thesis
      by (simp add: diffs_cdf_coeff)
  qed
  ultimately show ?thesis
    by simp
qed

lemma DERIV_norm_cdf_series:
  "DERIV (\<lambda>x. \<Sum>n. norm_cdf_term x n) x :> exp (- (x\<^sup>2 / 2))"
proof -
  have "DERIV (\<lambda>x. \<Sum>k. cdf_coeff k * x ^ k) x :> (\<Sum>k. diffs cdf_coeff k * x ^ k)"
    by (rule termdiffs_strong_converges_everywhere) (rule sums_summable[OF cdf_coeff_sums])
  moreover have "(\<lambda>x. \<Sum>k. cdf_coeff k * x ^ k) = (\<lambda>x. \<Sum>n. norm_cdf_term x n)"
    by (rule ext) (rule sums_unique[OF cdf_coeff_sums, symmetric])
  moreover have "(\<Sum>k. diffs cdf_coeff k * x ^ k) = exp (- (x\<^sup>2 / 2))"
    by (rule sums_unique[OF diffs_cdf_coeff_sums, symmetric])
  ultimately show ?thesis
    by simp
qed

lemma DERIV_norm_cdf: "DERIV norm_cdf x :> exp (- (x\<^sup>2 / 2)) / sqrt (2 * pi)"
proof -
  have "DERIV (\<lambda>x. 1 / 2 + (\<Sum>n. norm_cdf_term x n) / sqrt (2 * pi)) x
          :> 0 + exp (- (x\<^sup>2 / 2)) / sqrt (2 * pi)"
    by (intro DERIV_add DERIV_const DERIV_cdivide DERIV_norm_cdf_series)
  moreover have "norm_cdf = (\<lambda>x. 1 / 2 + (\<Sum>n. norm_cdf_term x n) / sqrt (2 * pi))"
    by (rule ext) (simp add: norm_cdf_def)
  ultimately show ?thesis
    by simp
qed

lemma norm_cdf_strict_mono:
  assumes "a < b"
  shows "norm_cdf a < norm_cdf b"
proof (rule DERIV_pos_imp_increasing[OF assms])
  fix x :: real
  have "0 < exp (- (x\<^sup>2 / 2)) / sqrt (2 * pi)"
    by simp
  with DERIV_norm_cdf[of x] show "\<exists>y. DERIV norm_cdf x :> y \<and> 0 < y"
    by blast
qed

lemma norm_cdf_mono: "a \<le> b \<Longrightarrow> norm_cdf a \<le> norm_cdf b"
  using norm_cdf_strict_mono[of a b] by (cases "a = b") auto

lemma norm_cdf_ge_half: "0 \<le> x \<Longrightarrow> 1 / 2 \<le> norm_cdf x"
  using norm_cdf_mono[of 0 x] by (simp add: norm_cdf_0)

section \<open>The pricing formulas\<close>

text \<open>Where all intermediate values are numbers the functions compute in the reals.\<close>

lemma call_value:
  assumes "0 < S" and "0 < K" and "sigma \<noteq> 0" and "0 < t"
  shows "black_scholes_call S K sigma r t = Inr (Finite (spec_price_call S K sigma r t))"
  using assms
  by (simp add: black_scholes_call_def np_log_def np_sqrt_def np_exp_def np_sub_def
      spec_price_call_def spec_d1_def spec_d2_def Let_def)

lemma put_value:
  assumes "0 < S" and "0 < K" and "sigma \<noteq> 0" and "0 < t"
  shows "black_scholes_put S K sigma r t = Inr (Finite (spec_price_put S K sigma r t))"
  using assms
  by (simp add: black_scholes_put_def np_log_def np_sqrt_def np_exp_def np_sub_def
      spec_price_put_def spec_d1_def spec_d2_def Let_def)

text \<open>Only \<open>K = 0\<close> makes them raise.\<close>

lemma call_Inr: "K \<noteq> 0 \<Longrightarrow> \<exists>b. black_scholes_call S K sigma r t = Inr b"
  by (simp add: black_scholes_call_def Let_def)

lemma put_Inr: "K \<noteq> 0 \<Longrightarrow> \<exists>b. black_scholes_put S K sigma r t = Inr b"
  by (simp add: black_scholes_put_def Let_def)

text \<open>
  At \<open>sigma = 0\<close> the division by zero makes \<open>d1\<close> and \<open>d2\<close> infinite: a call whose forward
  value is above the strike is priced at \<open>S - K e^(-r t)\<close>, one below at 0, and the put
  the other way round; when \<open>ln (S/K) + r t = 0\<close> the price is \<^verbatim>\<open>nan\<close>.
\<close>

lemma call_zero_sigma:
  assumes "0 < S" and "0 < K" and "0 < t"
  shows "black_scholes_call S K 0 r t =
     Inr (if 0 < ln (S / K) + r * t then Finite (S - K * exp (- (r * t)))
          else if ln (S / K) + r * t < 0 then Finite 0 else NaN)"
  using assms
  by (simp add: black_scholes_call_def np_log_def np_sqrt_def np_exp_def np_sub_def Let_def)

lemma put_zero_sigma:
  assumes "0 < S" and "0 < K" and "0 < t"
  shows "black_scholes_put S K 0 r t =
     Inr (if 0 < ln (S / K) + r * t then Finite 0
          else if ln (S / K) + r * t < 0 then Finite (K * exp (- (r * t)) - S) else NaN)"
  using assms
  by (simp add: black_scholes_put_def np_log_def np_sqrt_def np_exp_def np_sub_def Let_def)

text \<open>A negative strike makes the logarithm, and with it the price, \<^verbatim>\<open>nan\<close>.\<close>

lemma call_negative_strike:
  assumes "0 < S" and "K < 0"
  shows "black_scholes_call S K sigma r t = Inr NaN"
proof -
  from assms have "S / K < 0"
    by (simp add: divide_pos_neg)
  with assms show ?thesis
    by (simp add: black_scholes_call_def np_log_def np_sub_def Let_def)
qed

text \<open>A call that is in the money is worth at least half of its intrinsic value.\<close>

lemma call_lower_bound:
  assumes "0 < K" and "K \<le> S" and "0 < sigma" and "0 < t" and "0 \<le> r"
  shows "(S - K) / 2 \<le> spec_price_call S K sigma r t"
proof -
  define d1 where "d1 = spec_d1 S K sigma r t"
  define d2 where "d2 = spec_d2 S K sigma r t"
  define q where "q = K * exp (- (r * t))"
  have "0 \<le> ln (S / K)"
    using assms(1,2) by simp
  moreover have "0 \<le> (r + sigma\<^sup>2 / 2) * t"
    using assms(4,5) by simp
  ultimately have "0 \<le> d1"
    using assms(3,4) unfolding d1_def spec_d1_def by (intro divide_nonneg_pos) simp_all
  then have half: "1 / 2 \<le> norm_cdf d1"
    by (rule norm_cdf_ge_half)
  have "d2 \<le> d1"
    using assms(3,4) by (simp add: d2_def d1_def spec_d2_def)
  then have le: "norm_cdf d2 \<le> norm_cdf d1"
    by (rule norm_cdf_mono)
  have "exp (- (r * t)) \<le> 1"
    using assms(4,5) by simp
  then have q: "0 \<le> q" "q \<le> K"
    using assms(1) by (simp_all add: q_def mult_left_le)
  have "q * norm_cdf d2 \<le> q * norm_cdf d1"
    using le q(1) by (rule mult_left_mono)
  also have "\<dots> \<le> K * norm_cdf d1"
    using q(2) half by (intro mult_right_mono) simp_all
  finally have "S * norm_cdf d1 - q * norm_cdf d2 \<ge> (S - K) * norm_cdf d1"
    by (simp add: algebra_simps)
  moreover have "(S - K) * (1 / 2) \<le> (S - K) * norm_cdf d1"
    using half assms(2) by (intro mult_left_mono) simp_all
  ultimately show ?thesis
    by (simp add: spec_price_call_def d1_def d2_def q_def)
qed

text \<open>
  C1.  For S > 0, K > 0, sigma > 0 and t > 0 the call price computed by the code is
  \<open>S \<Phi>(d1) - K e^(-r t) \<Phi>(d2)\<close> and the put price is \<open>K e^(-r t) \<Phi>(-d2) - S \<Phi>(-d1)\<close>, with
  \<open>d1 = (ln (S/K) + (r + sigma\<^sup>2/2) t) / (sigma sqrt t)\<close> and \<open>d2 = d1 - sigma sqrt t\<close>
  (floats read as reals), a number and not \<^verbatim>\<open>nan\<close>.
\<close>

theorem black_scholes_is_spec_formula:
  assumes "0 < S" and "0 < K" and "0 < sigma" and "0 < t"
  shows "black_scholes_call S K sigma r t = Inr (Finite (spec_price_call S K sigma r t)) \<and>
         black_scholes_put S K sigma r t = Inr (Finite (spec_price_put S K sigma r t))"
  using assms
  by (simp add: black_scholes_call_def black_scholes_put_def np_log_def np_sqrt_def np_exp_def
      np_sub_def spec_price_call_def spec_price_put_def spec_d1_def spec_d2_def Let_def)

theorem black_scholes_is_spec_formula_witness:
  "(0::real) < 175.84 \<and> (0::real) < 170 \<and> (0::real) < 0.25 \<and> (0::real) < 31 / 365 \<and>
   black_scholes_call 175.84 170 0.25 0.05 (31 / 365)
     = Inr (Finite (spec_price_call 175.84 170 0.25 0.05 (31 / 365))) \<and>
   black_scholes_put 175.84 170 0.25 0.05 (31 / 365)
     = Inr (Finite (spec_price_put 175.84 170 0.25 0.05 (31 / 365)))"
  using black_scholes_is_spec_formula [of "175.84" 170 "0.25" "31 / 365" "0.05"] by simp

text \<open>
  C4.  Put-call parity: for S > 0, K > 0, sigma > 0 and t > 0 both prices are computed and
  the call price minus the put price is \<open>S - K e^(-r t)\<close>; over the reals the identity is
  exact, so it holds within any tolerance.
\<close>

theorem put_call_parity:
  assumes "0 < S" and "0 < K" and "0 < sigma" and "0 < t"
  shows "\<exists>c p. black_scholes_call S K sigma r t = Inr (Finite c) \<and>
           black_scholes_put S K sigma r t = Inr (Finite p) \<and>
           c - p = S - K * exp (- (r * t))"
proof -
  define d1 where "d1 = (ln (S / K) + (r + 0.5 * sigma\<^sup>2) * t) / (sigma * sqrt t)"
  define d2 where "d2 = d1 - sigma * sqrt t"
  define c where "c = S * norm_cdf d1 - K * exp (- (r * t)) * norm_cdf d2"
  define p where "p = K * exp (- (r * t)) * norm_cdf (- d2) - S * norm_cdf (- d1)"
  have "black_scholes_call S K sigma r t = Inr (Finite c)"
    using assms
    by (simp add: black_scholes_call_def np_log_def np_sqrt_def np_exp_def np_sub_def Let_def
        c_def d1_def d2_def)
  moreover have "black_scholes_put S K sigma r t = Inr (Finite p)"
    using assms
    by (simp add: black_scholes_put_def np_log_def np_sqrt_def np_exp_def np_sub_def Let_def
        p_def d1_def d2_def)
  moreover have "c - p = S - K * exp (- (r * t))"
    by (simp add: c_def p_def norm_cdf_minus algebra_simps)
  ultimately show ?thesis
    by blast
qed

theorem put_call_parity_witness:
  "(0::real) < 175.84 \<and> (0::real) < 170 \<and> (0::real) < 0.25 \<and> (0::real) < 31 / 365 \<and>
   (\<exists>c p. black_scholes_call 175.84 170 0.25 0.05 (31 / 365) = Inr (Finite c) \<and>
          black_scholes_put 175.84 170 0.25 0.05 (31 / 365) = Inr (Finite p) \<and>
          c - p = 175.84 - 170 * exp (- (0.05 * (31 / 365))))"
  using put_call_parity [of "175.84" 170 "0.25" "31 / 365" "0.05"] by simp

section \<open>Ordinals follow the calendar\<close>

lemma days_before_year_Suc:
  assumes "1 \<le> y"
  shows "days_before_year (Suc y) = days_before_year y + year_len y"
proof -
  from assms obtain k where y: "y = Suc k"
    by (cases y) auto
  have d4: "Suc k div 4 = k div 4 + (if Suc k mod 4 = 0 then 1 else 0)"
    and d100: "Suc k div 100 = k div 100 + (if Suc k mod 100 = 0 then 1 else 0)"
    and d400: "Suc k div 400 = k div 400 + (if Suc k mod 400 = 0 then 1 else 0)"
    by (simp_all add: div_Suc)
  have "(4::nat) dvd 100" "(100::nat) dvd 400"
    by simp_all
  then have m1: "Suc k mod 100 = 0 \<Longrightarrow> Suc k mod 4 = 0"
    and m2: "Suc k mod 400 = 0 \<Longrightarrow> Suc k mod 100 = 0"
    by (meson dvd_trans mod_0_imp_dvd dvd_imp_mod_0)+
  define a b c where "a = k div 4" and "b = k div 100" and "c = k div 400"
  have le: "b \<le> a"
    unfolding a_def b_def by (rule div_le_mono2) simp_all
  show ?thesis
    unfolding y days_before_year_def year_len_def is_leap_def diff_Suc_1 d4 d100 d400
    unfolding a_def[symmetric] b_def[symmetric] c_def[symmetric]
    using m1 m2 le by (auto split: if_splits)
qed

lemma days_before_year_mono:
  "1 \<le> y1 \<Longrightarrow> y1 < y2 \<Longrightarrow> days_before_year y1 + year_len y1 \<le> days_before_year y2"
proof (induction y2)
  case 0
  then show ?case by simp
next
  case (Suc y2)
  show ?case
  proof (cases "y1 = y2")
    case True
    with Suc.prems show ?thesis by (simp add: days_before_year_Suc)
  next
    case False
    with Suc.prems have "y1 < y2" by simp
    from Suc.IH[OF Suc.prems(1) this] Suc.prems show ?thesis
      by (simp add: days_before_year_Suc)
  qed
qed

lemma month_cases:
  assumes "1 \<le> m" "m \<le> 12"
  shows "m = 1 \<or> m = 2 \<or> m = 3 \<or> m = 4 \<or> m = 5 \<or> m = 6 \<or> m = 7 \<or> m = 8 \<or> m = 9 \<or> m = 10 \<or> m = 11 \<or> m = (12::nat)"
  using assms by arith

lemma days_before_month_Suc:
  assumes "1 \<le> m" "m < 12"
  shows "days_before_month y (Suc m) = days_before_month y m + days_in_month y m"
proof -
  from assms have "m = 1 \<or> m = 2 \<or> m = 3 \<or> m = 4 \<or> m = 5 \<or> m = 6 \<or> m = 7 \<or> m = 8 \<or> m = 9 \<or> m = 10 \<or> m = (11::nat)"
    by arith
  then show ?thesis
    by (elim disjE) (simp_all add: days_before_month_def days_in_month_def DAYS_BEFORE_MONTH_def DAYS_IN_MONTH_def eval_nat_numeral)
qed

lemma days_before_month_mono:
  "1 \<le> m1 \<Longrightarrow> m1 < m2 \<Longrightarrow> m2 \<le> 12 \<Longrightarrow> days_before_month y m1 + days_in_month y m1 \<le> days_before_month y m2"
proof (induction m2)
  case 0
  then show ?case by simp
next
  case (Suc m2)
  show ?case
  proof (cases "m1 = m2")
    case True
    with Suc.prems show ?thesis by (simp add: days_before_month_Suc)
  next
    case False
    with Suc.prems have "m1 < m2" "m2 \<le> 12" "1 \<le> m2" "m2 < 12" by simp_all
    with Suc.IH Suc.prems show ?thesis
      by (simp add: days_before_month_Suc)
  qed
qed

lemma day_of_year_le:
  assumes "1 \<le> m" "m \<le> 12" "d \<le> days_in_month y m"
  shows "days_before_month y m + d \<le> year_len y"
proof -
  have "days_before_month y m + days_in_month y m \<le> year_len y"
    using month_cases[OF assms(1,2)]
    by (elim disjE) (simp_all add: days_before_month_def days_in_month_def DAYS_BEFORE_MONTH_def DAYS_IN_MONTH_def year_len_def)
  with assms(3) show ?thesis by simp
qed

lemma toordinal_less:
  assumes "valid a" "valid b"
    and "year a < year b \<or> (year a = year b \<and>
        (month a < month b \<or> (month a = month b \<and> day a < day b)))"
  shows "toordinal a < toordinal b"
proof -
  from assms(1,2) have va: "1 \<le> year a" "1 \<le> month a" "month a \<le> 12" "1 \<le> day a"
      "day a \<le> days_in_month (year a) (month a)"
    and vb: "1 \<le> year b" "1 \<le> month b" "month b \<le> 12" "1 \<le> day b"
      "day b \<le> days_in_month (year b) (month b)"
    by (simp_all add: valid_def valid_date_def)
  consider (y) "year a < year b" | (m) "year a = year b" "month a < month b"
    | (d) "year a = year b" "month a = month b" "day a < day b"
    using assms(3) by blast
  then show ?thesis
  proof cases
    case y
    have "days_before_month (year a) (month a) + day a \<le> year_len (year a)"
      using va by (intro day_of_year_le)
    moreover have "days_before_year (year a) + year_len (year a) \<le> days_before_year (year b)"
      using va(1) y by (rule days_before_year_mono)
    ultimately show ?thesis
      using vb(4) by (simp add: toordinal_def)
  next
    case m
    have "days_before_month (year a) (month a) + days_in_month (year a) (month a)
            \<le> days_before_month (year a) (month b)"
      using va(2) m(2) vb(3) by (rule days_before_month_mono)
    then show ?thesis
      using va(5) vb(4) m(1) by (simp add: toordinal_def)
  next
    case d
    then show ?thesis by (simp add: toordinal_def)
  qed
qed

lemma toordinal_le_iff:
  assumes "valid a" "valid b"
  shows "toordinal a \<le> toordinal b \<longleftrightarrow> on_or_before a b"
proof
  assume le: "toordinal a \<le> toordinal b"
  show "on_or_before a b"
  proof (rule ccontr)
    assume "\<not> on_or_before a b"
    then have "year b < year a \<or> (year b = year a \<and>
        (month b < month a \<or> (month b = month a \<and> day b < day a)))"
      unfolding on_or_before_def by auto
    from toordinal_less[OF assms(2,1) this] le show False by simp
  qed
next
  assume "on_or_before a b"
  then consider "year a < year b \<or> (year a = year b \<and>
        (month a < month b \<or> (month a = month b \<and> day a < day b)))"
    | "year a = year b" "month a = month b" "day a = day b"
    unfolding on_or_before_def by force
  then show "toordinal a \<le> toordinal b"
  proof cases
    case 1
    from toordinal_less[OF assms this] show ?thesis by simp
  next
    case 2
    then show ?thesis by (simp add: toordinal_def)
  qed
qed

lemma strptime_valid: "strptime s = Inr dt \<Longrightarrow> valid dt"
  by (auto simp: strptime_def valid_def split: option.splits if_splits)

lemmas strptime_simps =
  strptime_def regex_match_def month_alts_def day_alts_def is_digit_def in_range_def
  digit_val_def valid_date_def days_in_month_def DAYS_IN_MONTH_def is_leap_def

lemmas toordinal_simps =
  toordinal_def days_before_year_def days_before_month_def DAYS_BEFORE_MONTH_def is_leap_def

section \<open>Every date in ISO form is parseable\<close>

lemma digit_cases:
  assumes "k < 10"
  shows "k = 0 \<or> k = 1 \<or> k = 2 \<or> k = 3 \<or> k = 4 \<or> k = 5 \<or> k = 6 \<or> k = 7 \<or> k = 8 \<or> k = (9::nat)"
  using assms by arith

lemma digit_char_props:
  assumes "k < 10"
  shows "is_digit (digit_char k) \<and> digit_val (digit_char k) = k"
  using digit_cases[OF assms]
  by (elim disjE) (simp_all add: digit_char_def is_digit_def in_range_def digit_val_def)

lemma four_digits_value:
  fixes y :: nat
  shows "1000 * (y div 1000) + 100 * (y div 100 mod 10) + 10 * (y div 10 mod 10) + y mod 10 = y"
proof -
  define a b c m0 m1 m2 where "a = y div 10" and "b = a div 10" and "c = b div 10"
    and "m0 = y mod 10" and "m1 = a mod 10" and "m2 = b mod 10"
  have e: "y = 10 * a + m0" "a = 10 * b + m1" "b = 10 * c + m2"
    unfolding a_def b_def c_def m0_def m1_def m2_def by (rule mult_div_mod_eq[symmetric])+
  have "y div 100 = b"
    unfolding b_def a_def by (simp only: div_mult2_eq[symmetric]) simp
  moreover have "y div 1000 = c"
    unfolding c_def b_def a_def by (simp only: div_mult2_eq[symmetric]) simp
  moreover have "1000 * c + 100 * m2 + 10 * m1 + m0 = y"
    using e by simp
  ultimately show ?thesis
    by (simp only: m0_def[symmetric] a_def[symmetric] m1_def[symmetric] m2_def[symmetric])
qed

lemma day_cases:
  assumes "1 \<le> d" "d \<le> 31"
  shows "d = 1 \<or> d = 2 \<or> d = 3 \<or> d = 4 \<or> d = 5 \<or> d = 6 \<or> d = 7 \<or> d = 8 \<or> d = 9 \<or> d = 10 \<or>
         d = 11 \<or> d = 12 \<or> d = 13 \<or> d = 14 \<or> d = 15 \<or> d = 16 \<or> d = 17 \<or> d = 18 \<or> d = 19 \<or>
         d = 20 \<or> d = 21 \<or> d = 22 \<or> d = 23 \<or> d = 24 \<or> d = 25 \<or> d = 26 \<or> d = 27 \<or> d = 28 \<or>
         d = 29 \<or> d = 30 \<or> d = (31::nat)"
  using assms by arith

lemma day_alts_two_digits:
  assumes "1 \<le> d" "d \<le> 31"
  shows "\<exists>alts. day_alts (two_digits d) = (d, []) # alts"
  using day_cases[OF assms]
  by (elim disjE)
    (simp_all add: two_digits_def digit_char_def day_alts_def is_digit_def in_range_def digit_val_def)

lemma month_alts_two_digits:
  assumes "1 \<le> m" "m \<le> 12"
  shows "\<exists>alts. month_alts (two_digits m @ s) = (m, s) # alts"
  using month_cases[OF assms]
  by (elim disjE)
    (simp_all add: two_digits_def digit_char_def month_alts_def in_range_def digit_val_def)


lemma regex_match_isoformat:
  assumes "valid dt"
  shows "regex_match (isoformat dt) = Some (year dt, month dt, day dt, [])"
proof -
  from assms have y: "year dt \<le> 9999" and m: "1 \<le> month dt" "month dt \<le> 12"
    and d: "1 \<le> day dt" "day dt \<le> days_in_month (year dt) (month dt)"
    by (simp_all add: valid_def valid_date_def)
  have "days_in_month (year dt) (month dt) \<le> 31"
    using month_cases[OF m]
    by (elim disjE) (simp_all add: days_in_month_def DAYS_IN_MONTH_def)
  with d have d31: "day dt \<le> 31"
    by simp
  from day_alts_two_digits[OF d(1) d31] obtain dalts where
    da: "day_alts (two_digits (day dt)) = (day dt, []) # dalts"
    by blast
  from month_alts_two_digits[OF m] obtain malts where
    ma: "month_alts (two_digits (month dt) @ CHR ''-'' # two_digits (day dt))
           = (month dt, CHR ''-'' # two_digits (day dt)) # malts"
    by blast
  have mm: "match_month_day (month_alts (two_digits (month dt) @ CHR ''-'' # two_digits (day dt)))
        = Some (month dt, day dt, [])"
    by (simp add: ma da)
  have dg: "is_digit (digit_char (year dt div 1000))" "is_digit (digit_char (year dt div 100 mod 10))"
    "is_digit (digit_char (year dt div 10 mod 10))" "is_digit (digit_char (year dt mod 10))"
    "digit_val (digit_char (year dt div 1000)) = year dt div 1000"
    "digit_val (digit_char (year dt div 100 mod 10)) = year dt div 100 mod 10"
    "digit_val (digit_char (year dt div 10 mod 10)) = year dt div 10 mod 10"
    "digit_val (digit_char (year dt mod 10)) = year dt mod 10"
    using y by (simp_all add: digit_char_props)
  show ?thesis
    unfolding isoformat_def four_digits_def regex_match_def
    by (simp add: dg mm four_digits_value)
qed

lemma strptime_isoformat:
  assumes "valid dt"
  shows "strptime (isoformat dt) = Inr dt"
  using assms by (simp add: strptime_def regex_match_isoformat valid_def)

lemma parseable_isoformat: "valid dt \<Longrightarrow> parseable (isoformat dt)"
  by (simp add: parseable_def strptime_isoformat)

section \<open>Time to expiration\<close>

text \<open>
  C3.  For two parseable dates \<^verbatim>\<open>time_to_expiration\<close> returns a positive number: the
  whole-day difference (expiration minus reference) divided by 365 when the expiration
  is after the reference date, and 0.0001 when the expiration is on or before it.
\<close>

theorem time_to_expiration_clamped:
  assumes "strptime expiration_date = Inr e" and "strptime reference_date = Inr f"
  shows "time_to_expiration expiration_date reference_date =
           Inr (if on_or_before e f then 0.0001
                else real_of_int (int (toordinal e) - int (toordinal f)) / 365) \<and>
         (0::real) < (if on_or_before e f then 0.0001
                else real_of_int (int (toordinal e) - int (toordinal f)) / 365)"
proof -
  have iff: "toordinal e \<le> toordinal f \<longleftrightarrow> on_or_before e f"
    using assms by (intro toordinal_le_iff strptime_valid)
  show ?thesis
  proof (cases "on_or_before e f")
    case True
    with iff have "real_of_int (int (toordinal e) - int (toordinal f)) / 365 \<le> 0"
      by (simp add: divide_le_0_iff)
    with True assms show ?thesis
      by (simp add: time_to_expiration_def max_def)
  next
    case False
    with iff have "1 \<le> int (toordinal e) - int (toordinal f)"
      by simp
    then have "1 \<le> real_of_int (int (toordinal e) - int (toordinal f))"
      by linarith
    then have "1 / 365 \<le> real_of_int (int (toordinal e) - int (toordinal f)) / 365"
      by (simp add: divide_right_mono)
    with False assms show ?thesis
      by (simp add: time_to_expiration_def max_def)
  qed
qed

theorem time_to_expiration_clamped_witness:
  "strptime ''2023-10-18'' = Inr \<lparr>year = 2023, month = 10, day = 18\<rparr> \<and>
   time_to_expiration ''2023-10-18'' ''2023-10-18'' = Inr 0.0001"
  using time_to_expiration_clamped [of "''2023-10-18''" "\<lparr>year = 2023, month = 10, day = 18\<rparr>"
      "''2023-10-18''" "\<lparr>year = 2023, month = 10, day = 18\<rparr>"]
  by (simp add: strptime_simps on_or_before_def)

text \<open>
  C8.  \<^verbatim>\<open>time_to_expiration\<close> raises exactly when one of its two inputs is not a parseable
  date, and what it raises then is the \<^verbatim>\<open>ValueError\<close> of \<^verbatim>\<open>strptime\<close>; for two parseable
  inputs it returns a number.
\<close>

theorem time_to_expiration_fails_iff:
  "(time_to_expiration expiration_date reference_date = Inl ValueError)
     = (\<not> (parseable expiration_date \<and> parseable reference_date)) \<and>
   (\<exists>t. time_to_expiration expiration_date reference_date = Inr t)
     = (parseable expiration_date \<and> parseable reference_date) \<and>
   (\<exists>e. time_to_expiration expiration_date reference_date = Inl e)
     = (time_to_expiration expiration_date reference_date = Inl ValueError)"
proof -
  have err: "strptime s = Inl e \<Longrightarrow> e = ValueError" for s e
    by (auto simp: strptime_def split: option.splits if_splits)
  show ?thesis
    by (auto simp: time_to_expiration_def parseable_def split: sum.splits dest: err)
qed

theorem time_to_expiration_fails_iff_witness:
  "time_to_expiration ''2023-02-30'' ''2023-10-18'' = Inl ValueError \<and>
   \<not> parseable ''2023-02-30'' \<and> parseable ''2023-10-18''"
  using time_to_expiration_fails_iff [of "''2023-02-30''" "''2023-10-18''"]
  by (simp add: parseable_def strptime_simps)

section \<open>The loop body and the loop\<close>

lemma bind_Inr_iff: "bind m f = Inr y \<longleftrightarrow> (\<exists>x. m = Inr x \<and> f x = Inr y)"
  by (cases m) (simp_all add: bind_def)

lemma derive_Inr:
  assumes "derive E u r sd td S option = Inr p"
  shows "\<exists>call_put expiration strike bid ask vol bid_f ask_f.
     getitem option ''call_put'' = Inr call_put \<and>
     getitem option ''expiration'' = Inr (JStr expiration) \<and>
     getitem option ''strike'' = Inr strike \<and>
     getitem option ''bid'' = Inr bid \<and> getitem option ''ask'' = Inr ask \<and>
     getitem option ''vol'' = Inr vol \<and>
     py_float E strike = Inr (strike_K p) \<and>
     py_float E bid = Inr bid_f \<and> py_float E ask = Inr ask_f \<and>
     market_price p = (bid_f + ask_f) / 2 \<and>
     (if truthy vol then py_float E vol = Inr (sigma_used p) else sigma_used p = sd) \<and>
     time_to_expiration expiration td = Inr (t_used p) \<and>
     is_call p = (call_put = JStr ''Call'') \<and>
     (if is_call p then black_scholes_call S (strike_K p) (sigma_used p) r (t_used p)
      else black_scholes_put S (strike_K p) (sigma_used p) r (t_used p)) = Inr (bs_price p)"
proof -
  from assms obtain call_put expiration expiration_digits strike K bid bid_f ask ask_f vol sigma t b
    where g: "getitem option ''call_put'' = Inr call_put"
      "getitem option ''expiration'' = Inr expiration"
      "replace_dash expiration = Inr expiration_digits"
      "getitem option ''strike'' = Inr strike"
      "py_float E strike = Inr K"
      "getitem option ''bid'' = Inr bid" "py_float E bid = Inr bid_f"
      "getitem option ''ask'' = Inr ask" "py_float E ask = Inr ask_f"
      "getitem option ''vol'' = Inr vol"
      "(if truthy vol then py_float E vol else Inr sd) = Inr sigma"
      "(case expiration of JStr expiration_date \<Rightarrow> time_to_expiration expiration_date td
           | _ \<Rightarrow> Inl TypeError) = Inr t"
      "(if call_put = JStr ''Call'' then black_scholes_call S K sigma r t
        else black_scholes_put S K sigma r t) = Inr b"
      and p0: "Inr \<lparr>is_call = (call_put = JStr ''Call''),
            ticker = u @ expiration_digits @ (if call_put = JStr ''Call'' then ''C'' else ''P'')
                    @ py_str E strike,
            strike_K = K, market_price = (bid_f + ask_f) / 2,
            sigma_used = sigma, t_used = t, bs_price = b\<rparr> = (Inr p :: error + pricing)"
    unfolding derive_def bind_Inr_iff Let_def by (elim exE conjE) (rule that)
  from p0 have p: "p = \<lparr>is_call = (call_put = JStr ''Call''),
            ticker = u @ expiration_digits @ (if call_put = JStr ''Call'' then ''C'' else ''P'')
                    @ py_str E strike,
            strike_K = K, market_price = (bid_f + ask_f) / 2,
            sigma_used = sigma, t_used = t, bs_price = b\<rparr>"
    by simp
  from g(3) obtain s where s: "expiration = JStr s"
    by (cases expiration) simp_all
  show ?thesis
    using g s unfolding p by (auto split: if_splits)
qed

lemma flag_Some_iff:
  "flag u r S rid p = Some res \<longleftrightarrow>
     py_less (market_price p) (bs_price p) \<and>
     res = \<lparr>RecordId = rid, UnderlyingTicker = u, OptionTicker = ticker p,
            OptionType = (if is_call p then ''Call'' else ''Put''),
            val_S = S, val_K = strike_K p, val_sigma = sigma_used p, val_r = r, val_t = t_used p,
            MarketPrice = market_price p, BlackScholesPrice = bs_price p,
            Undervaluation = np_sub (bs_price p) (Finite (market_price p))\<rparr>"
  by (auto simp: flag_def)

lemma py_less_sub: "py_less a b \<Longrightarrow> py_less 0 (np_sub b (Finite a))"
  by (cases b) (simp_all add: np_sub_def)

lemma time_to_expiration_pos: "time_to_expiration a b = Inr t \<Longrightarrow> 0 < t"
  by (auto simp: time_to_expiration_def max_def split: sum.splits if_splits)

lemma classify_Inr:
  "classify E u r sd td S i option = Inr out \<longleftrightarrow>
     (\<exists>p. derive E u r sd td S option = Inr p \<and> out = flag u r S (now_iso E i) p)"
  by (auto simp: classify_def bind_Inr_iff)

lemma classify_Some:
  assumes "classify E u r sd td S i option = Inr (Some res)"
  shows "val_S res = S \<and>
     (if OptionType res = ''Call''
      then black_scholes_call S (val_K res) (val_sigma res) r (val_t res)
      else black_scholes_put S (val_K res) (val_sigma res) r (val_t res))
       = Inr (BlackScholesPrice res)"
proof -
  from assms obtain p where p: "derive E u r sd td S option = Inr p"
    and f: "flag u r S (now_iso E i) p = Some res"
    unfolding classify_Inr by auto
  from derive_Inr[OF p] have
    "(if is_call p then black_scholes_call S (strike_K p) (sigma_used p) r (t_used p)
      else black_scholes_put S (strike_K p) (sigma_used p) r (t_used p)) = Inr (bs_price p)"
    by blast
  with f show ?thesis
    unfolding flag_Some_iff by (cases "is_call p") simp_all
qed

text \<open>A scan that returns has produced exactly the results of the loop body on the rows,
  in their order, and has inserted exactly these.\<close>

lemma flagged_Nil: "flagged E u r sd td S i [] = []"
  by (simp add: flagged_def List.map_filter_simps)

lemma flagged_Cons:
  "flagged E u r sd td S i (option # rows) =
     (case classify E u r sd td S i option of
        Inr (Some res) \<Rightarrow> res # flagged E u r sd td S (Suc i) rows
      | _ \<Rightarrow> flagged E u r sd td S (Suc i) rows)"
proof -
  have "[i..<i + length (option # rows)] = i # [Suc i..<Suc i + length rows]"
    using upt_conv_Cons[of i "Suc (i + length rows)"] by simp
  then show ?thesis
    by (simp add: flagged_def List.map_filter_simps split: sum.splits option.splits)
qed

lemma length_flagged: "length (flagged E u r sd td S i rows) \<le> length rows"
  by (induction rows arbitrary: i)
    (auto simp: flagged_Nil flagged_Cons le_SucI split: sum.splits option.splits)

lemma in_flagged:
  assumes "res \<in> set (flagged E u r sd td S i rows)"
  shows "\<exists>j option. option \<in> set rows \<and> classify E u r sd td S j option = Inr (Some res)"
  using assms
proof (induction rows arbitrary: i)
  case Nil
  then show ?case by (simp add: flagged_Nil)
next
  case (Cons option rows)
  then show ?case
    by (fastforce simp: flagged_Cons split: sum.splits option.splits)
qed

lemma scan_rows_Inr:
  assumes "scan_rows E u r sd td S rows i collection acc = (Inr results, collection')"
  shows "results = acc @ flagged E u r sd td S i rows \<and>
         collection' = collection @ flagged E u r sd td S i rows"
  using assms
proof (induction rows arbitrary: i collection acc)
  case Nil
  then show ?case by (simp add: flagged_Nil)
next
  case (Cons option rows)
  show ?case
  proof (cases "classify E u r sd td S i option")
    case (Inl e)
    with Cons.prems show ?thesis by simp
  next
    case (Inr out)
    show ?thesis
    proof (cases out)
      case None
      with Inr Cons.prems Cons.IH[of "Suc i" collection acc] show ?thesis
        by (simp add: flagged_Cons)
    next
      case (Some res)
      with Inr Cons.prems have "\<not> insert_raises E collection res"
        by (auto split: if_splits)
      with Some Inr Cons.prems Cons.IH[of "Suc i" "collection @ [res]" "acc @ [res]"] show ?thesis
        by (simp add: flagged_Cons)
    qed
  qed
qed

lemma scan_options_Inr:
  assumes "scan_options E u r sd td collection = (Inr results, collection')"
  shows "\<exists>options_data. fetch_dolthub_options E u td 100 = Inr options_data \<and>
           results = flagged E u r sd td 175.84 0 (py_iter options_data) \<and>
           collection' = collection @ results"
proof -
  from assms obtain options_data n where f: "fetch_dolthub_options E u td 100 = Inr options_data"
    and n: "py_len options_data = Inr n"
    by (auto simp: scan_options_def split: sum.splits)
  show ?thesis
  proof (cases "truthy options_data")
    case True
    with assms f n have "scan_rows E u r sd td 175.84 (py_iter options_data) 0 collection []
        = (Inr results, collection')"
      by (simp add: scan_options_def)
    from scan_rows_Inr[OF this] f show ?thesis
      by simp
  next
    case False
    then have "py_iter options_data = []"
      using n by (cases options_data) simp_all
    with False assms f n show ?thesis
      by (simp add: scan_options_def flagged_Nil)
  qed
qed

lemma str_int_100: "str_int 100 = ''100''"
  by (simp add: str_int_def digit_char_def str_nat.simps[of 100] str_nat.simps[of 10]
      str_nat.simps[of "Suc 0"])

lemma dolthub_url_limit:
  "dolthub_url u td 100 =
     ''https://www.dolthub.com/api/v1alpha1/post-no-preference/options/master?'' @
     ''q=SELECT * FROM option_chain WHERE act_symbol = '' @ [CHR 0x27] @ u @ [CHR 0x27] @
     '' AND date = '' @ [CHR 0x27] @ td @ [CHR 0x27] @ '' LIMIT 100''"
  by (simp add: dolthub_url_def str_int_100)

section \<open>The concrete chain\<close>

lemma example_time: "time_to_expiration ''2023-11-17'' ''2023-10-18'' = Inr (30 / 365)"
  by (simp add: time_to_expiration_def strptime_simps toordinal_simps)

lemma example_time60: "time_to_expiration ''2023-11-17'' ''2023-09-18'' = Inr (60 / 365)"
  by (simp add: time_to_expiration_def strptime_simps toordinal_simps)

lemma derive_example_row:
  assumes "float_of_str E = example_floats"
    and "time_to_expiration ''2023-11-17'' test_date = Inr t"
  shows "derive E underlying_ticker r sigma_default test_date 175.84 example_row =
     Inr \<lparr>is_call = True, ticker = underlying_ticker @ ''20231117C100.00'', strike_K = 100,
          market_price = 1.5, sigma_used = 0.25, t_used = t,
          bs_price = Finite (spec_price_call 175.84 100 0.25 r t)\<rparr>"
  using assms time_to_expiration_pos[OF assms(2)]
  by (simp add: derive_def bind_def example_row_def example_floats_def call_value)

lemma classify_example_row:
  assumes "float_of_str E = example_floats"
    and "now_iso E i = ''2023-10-18T00:00:00+00:00''"
    and "time_to_expiration ''2023-11-17'' test_date = Inr t" and "0 < t"
  shows "classify E underlying_ticker 0.05 sigma_default test_date 175.84 i example_row =
     Inr (Some (example_result underlying_ticker t))"
proof -
  have "(175.84 - 100) / 2 \<le> spec_price_call 175.84 100 0.25 0.05 t"
    using assms(4) by (intro call_lower_bound) simp_all
  then have "1.5 < spec_price_call 175.84 100 0.25 0.05 t"
    by simp
  then show ?thesis
    unfolding classify_def derive_example_row[OF assms(1,3)] bind_def
    by (simp add: assms(2) flag_def example_result_def np_sub_def)
qed

lemma example_env_floats: "float_of_str (example_env u td response) = example_floats"
  by (simp add: example_env_def)

lemma fetch_example:
  "fetch_dolthub_options (example_env u td (ok_response (success_body rows))) u td 100 = Inr rows"
  by (simp add: fetch_dolthub_options_def example_env_def ok_response_def success_body_def)

lemma fetch_example_error:
  "fetch_dolthub_options (example_env u td (ok_response error_body)) u td 100 = Inr (JArr [])"
  by (simp add: fetch_dolthub_options_def example_env_def ok_response_def error_body_def)

lemma scan_rows_example:
  assumes "float_of_str E = example_floats"
    and "now_iso E = (\<lambda>i. ''2023-10-18T00:00:00+00:00'')"
    and "insert_raises E = (\<lambda>collection result. False)"
    and "time_to_expiration ''2023-11-17'' td = Inr t" and "0 < t"
  shows "scan_rows E u 0.05 sd td 175.84 (replicate n example_row) i collection acc =
           (Inr (acc @ replicate n (example_result u t)),
            collection @ replicate n (example_result u t))"
proof (induction n arbitrary: i collection acc)
  case 0
  then show ?case by simp
next
  case (Suc n)
  have c: "classify E u 0.05 sd td 175.84 i example_row = Inr (Some (example_result u t))"
    using assms(1) _ assms(4,5) by (rule classify_example_row) (simp add: assms(2))
  show ?case
    unfolding replicate_Suc scan_rows.simps c sum.case option.case assms(3) if_False Suc.IH
    by (simp add: replicate_app_Cons_same)
qed

lemma scan_options_example:
  assumes "time_to_expiration ''2023-11-17'' td = Inr t" and "0 < t" and "0 < n"
  shows "scan_options (example_env u td (ok_response (success_body (JArr (replicate n example_row)))))
           u 0.05 sd td collection =
           (Inr (replicate n (example_result u t)), collection @ replicate n (example_result u t))"
proof -
  let ?E = "example_env u td (ok_response (success_body (JArr (replicate n example_row))))"
  have "scan_rows ?E u 0.05 sd td 175.84 (replicate n example_row) 0 collection [] =
           (Inr ([] @ replicate n (example_result u t)),
            collection @ replicate n (example_result u t))"
    using _ _ _ assms(1,2) by (rule scan_rows_example) (simp_all add: example_env_def)
  moreover have "truthy (JArr (replicate n example_row))"
    using assms(3) by simp
  ultimately show ?thesis
    unfolding scan_options_def fetch_example by simp
qed

lemma scan_example_one:
  assumes "time_to_expiration ''2023-11-17'' td = Inr t" and "0 < t"
  shows "scan_options (example_env u td (ok_response (success_body (JArr [example_row]))))
           u 0.05 sd td [] = (Inr [example_result u t], [example_result u t])"
  using scan_options_example[OF assms, of 1 u sd "[]"] by simp

text \<open>A null volatility gives the default; a row without the key is not priced.\<close>

lemma derive_falsy_vol:
  assumes "float_of_str E = example_floats" and "\<not> truthy v"
  shows "\<exists>p. derive E u r sd ''2023-10-18'' 175.84 (row_with_vol v) = Inr p \<and> sigma_used p = sd"
proof -
  obtain b where "black_scholes_call 175.84 100 sd r (30 / 365) = Inr b"
    using call_Inr[of 100 "175.84" sd r "30 / 365"] by auto
  with assms show ?thesis
    by (simp add: derive_def bind_def row_with_vol_def example_floats_def example_time)
qed

lemma derive_truthy_vol:
  assumes "float_of_str E = example_floats" and "truthy v" and "py_float E v = Inr x"
  shows "\<exists>p. derive E u r sd ''2023-10-18'' 175.84 (row_with_vol v) = Inr p \<and> sigma_used p = x"
proof -
  obtain b where "black_scholes_call 175.84 100 x r (30 / 365) = Inr b"
    using call_Inr[of 100 "175.84" x r "30 / 365"] by auto
  with assms show ?thesis
    by (simp add: derive_def bind_def row_with_vol_def example_floats_def example_time)
qed

lemma derive_no_vol:
  assumes "float_of_str E = example_floats"
  shows "derive E u r sd ''2023-10-18'' 175.84 example_row_no_vol = Inl (KeyError ''vol'')"
  using assms
  by (simp add: derive_def bind_def example_row_no_vol_def example_floats_def)

text \<open>The volatility \<^verbatim>\<open>"0.0000"\<close> is a non-empty string, hence truthy: the row is priced with
  \<open>sigma = 0\<close>, at \<open>S - K e^(-r t)\<close>, and flagged.\<close>

lemma zero_vol_price:
  "black_scholes_call 175.84 100 0 0.05 (30 / 365)
     = Inr (Finite (175.84 - 100 * exp (- (0.05 * (30 / 365)))))"
proof -
  have pos: "0 < ln (175.84 / 100 :: real) + 0.05 * (30 / 365)"
    by (intro add_pos_pos) simp_all
  have "black_scholes_call 175.84 100 0 0.05 (30 / 365) =
     Inr (if 0 < ln (175.84 / 100 :: real) + 0.05 * (30 / 365)
          then Finite (175.84 - 100 * exp (- (0.05 * (30 / 365))))
          else if ln (175.84 / 100 :: real) + 0.05 * (30 / 365) < 0 then Finite 0 else NaN)"
    by (rule call_zero_sigma) simp_all
  with pos show ?thesis
    by (simp only: if_True)
qed

lemma derive_zero_vol_row:
  assumes "float_of_str E = example_floats"
  shows "derive E u 0.05 sd ''2023-10-18'' 175.84 example_row_zero_vol =
     Inr \<lparr>is_call = True, ticker = u @ ''20231117C100.00'', strike_K = 100,
          market_price = 50, sigma_used = 0, t_used = 30 / 365,
          bs_price = Finite (175.84 - 100 * exp (- (0.05 * (30 / 365))))\<rparr>"
  using assms zero_vol_price
  by (simp add: derive_def bind_def example_row_zero_vol_def example_floats_def example_time)

lemma flag_zero_vol_row:
  "(50::real) < 175.84 - 100 * exp (- (0.05 * (30 / 365)))"
proof -
  define x :: real where "x = exp (- (0.05 * (30 / 365)))"
  have "x \<le> 1"
    unfolding x_def by simp
  then have "50 < 175.84 - 100 * x"
    by simp
  then show ?thesis
    unfolding x_def .
qed

lemma classify_zero_vol_row:
  assumes "float_of_str E = example_floats"
  shows "\<exists>res. classify E u 0.05 sd ''2023-10-18'' 175.84 i example_row_zero_vol = Inr (Some res) \<and>
     val_sigma res = 0 \<and>
     BlackScholesPrice res = Finite (175.84 - 100 * exp (- (0.05 * (30 / 365))))"
  using flag_zero_vol_row
  unfolding classify_def derive_zero_vol_row[OF assms] bind_def
  by (simp add: flag_def)

lemma scan_zero_vol_row:
  "\<exists>res. scan_options
       (example_env u ''2023-10-18'' (ok_response (success_body (JArr [example_row_zero_vol]))))
       u 0.05 sd ''2023-10-18'' [] = (Inr [res], [res]) \<and>
     val_sigma res = 0 \<and>
     BlackScholesPrice res = Finite (175.84 - 100 * exp (- (0.05 * (30 / 365))))"
proof -
  let ?E = "example_env u ''2023-10-18'' (ok_response (success_body (JArr [example_row_zero_vol])))"
  from classify_zero_vol_row[of ?E u sd 0, OF example_env_floats] obtain res where
    c: "classify ?E u 0.05 sd ''2023-10-18'' 175.84 0 example_row_zero_vol = Inr (Some res)"
    and v: "val_sigma res = 0"
      "BlackScholesPrice res = Finite (175.84 - 100 * exp (- (0.05 * (30 / 365))))"
    by blast
  have "scan_rows ?E u 0.05 sd ''2023-10-18'' 175.84 [example_row_zero_vol] 0 [] []
      = (Inr [res], [res])"
    unfolding scan_rows.simps c by (simp add: example_env_def)
  then have "scan_options ?E u 0.05 sd ''2023-10-18'' [] = (Inr [res], [res])"
    unfolding scan_options_def fetch_example by simp
  with v show ?thesis
    by blast
qed

section \<open>The classifier\<close>

text \<open>
  C2.  For a row that the loop body processes without an exception, a result is produced
  if and only if the market price, the midpoint of bid and ask, is strictly below the
  theoretical price of the contract's kind (\<open>py_less\<close> is the comparison of line 88; between
  numbers it is \<open><\<close>); at equality or above there is none.  A produced result carries both
  prices, and its Undervaluation is the theoretical price minus the market price, which
  is positive.
\<close>

theorem classify_flags_iff_undervalued:
  assumes "classify E u r sd td S i option = Inr out"
  shows "\<exists>p bid ask bid_f ask_f.
     derive E u r sd td S option = Inr p \<and>
     getitem option ''bid'' = Inr bid \<and> py_float E bid = Inr bid_f \<and>
     getitem option ''ask'' = Inr ask \<and> py_float E ask = Inr ask_f \<and>
     market_price p = (bid_f + ask_f) / 2 \<and>
     (if is_call p then black_scholes_call S (strike_K p) (sigma_used p) r (t_used p)
      else black_scholes_put S (strike_K p) (sigma_used p) r (t_used p)) = Inr (bs_price p) \<and>
     (out \<noteq> None) = py_less (market_price p) (bs_price p) \<and>
     (\<forall>b. bs_price p = Finite b \<longrightarrow> (out \<noteq> None) = (market_price p < b)) \<and>
     (case out of
        None \<Rightarrow> \<not> py_less (market_price p) (bs_price p)
      | Some res \<Rightarrow> MarketPrice res = market_price p \<and> BlackScholesPrice res = bs_price p \<and>
          Undervaluation res = np_sub (bs_price p) (Finite (market_price p)) \<and>
          py_less 0 (Undervaluation res))"
proof -
  from assms obtain p where p: "derive E u r sd td S option = Inr p"
    and out: "out = flag u r S (now_iso E i) p"
    unfolding classify_Inr by blast
  from derive_Inr[OF p] obtain bid ask bid_f ask_f where
    "getitem option ''bid'' = Inr bid" "py_float E bid = Inr bid_f"
    "getitem option ''ask'' = Inr ask" "py_float E ask = Inr ask_f"
    "market_price p = (bid_f + ask_f) / 2"
    "(if is_call p then black_scholes_call S (strike_K p) (sigma_used p) r (t_used p)
      else black_scholes_put S (strike_K p) (sigma_used p) r (t_used p)) = Inr (bs_price p)"
    by blast
  moreover have iff: "(out \<noteq> None) = py_less (market_price p) (bs_price p)"
    by (simp add: out flag_def)
  moreover have "\<forall>b. bs_price p = Finite b \<longrightarrow> (out \<noteq> None) = (market_price p < b)"
    using iff by simp
  moreover have "(case out of
        None \<Rightarrow> \<not> py_less (market_price p) (bs_price p)
      | Some res \<Rightarrow> MarketPrice res = market_price p \<and> BlackScholesPrice res = bs_price p \<and>
          Undervaluation res = np_sub (bs_price p) (Finite (market_price p)) \<and>
          py_less 0 (Undervaluation res))"
    by (simp add: out flag_def py_less_sub)
  ultimately show ?thesis
    using p by blast
qed

theorem classify_flags_iff_undervalued_witness:
  "classify (example_env ''AAPL'' ''2023-10-18'' (ok_response (success_body (JArr [example_row]))))
     ''AAPL'' 0.05 0.3 ''2023-10-18'' 175.84 0 example_row
     = Inr (Some (example_result ''AAPL'' (30 / 365))) \<and>
   MarketPrice (example_result ''AAPL'' (30 / 365)) = (1 + 2) / 2 \<and>
   py_less 0 (Undervaluation (example_result ''AAPL'' (30 / 365)))"
proof -
  let ?E = "example_env ''AAPL'' ''2023-10-18'' (ok_response (success_body (JArr [example_row])))"
  have c: "classify ?E ''AAPL'' 0.05 0.3 ''2023-10-18'' 175.84 0 example_row
     = Inr (Some (example_result ''AAPL'' (30 / 365)))"
    by (rule classify_example_row[OF _ _ example_time]) (simp_all add: example_env_def)
  from classify_flags_iff_undervalued[OF c]
  have "py_less 0 (Undervaluation (example_result ''AAPL'' (30 / 365)))"
    by auto
  with c show ?thesis
    by (simp add: example_result_def)
qed

text \<open>
  C7, as the code has it.  A row without the \<open>vol\<close> field is not priced: reading the field
  raises.  For a row that is priced, the volatility used is the float of the \<open>vol\<close> value
  when that value is truthy in Python's sense (so the non-empty string \<^verbatim>\<open>"0.0000"\<close> gives
  0) and the supplied default when it is falsy (null, a zero number, the empty string);
  the market price is (bid + ask) / 2; the theoretical price is computed with that
  volatility.
\<close>

theorem derive_sigma_and_market_price:
  "(\<forall>e. getitem option ''vol'' = Inl e \<longrightarrow> (\<exists>e'. derive E u r sd td S option = Inl e')) \<and>
   (\<forall>p. derive E u r sd td S option = Inr p \<longrightarrow>
      (\<exists>vol bid ask bid_f ask_f.
         getitem option ''vol'' = Inr vol \<and>
         (if truthy vol then py_float E vol = Inr (sigma_used p) else sigma_used p = sd) \<and>
         getitem option ''bid'' = Inr bid \<and> py_float E bid = Inr bid_f \<and>
         getitem option ''ask'' = Inr ask \<and> py_float E ask = Inr ask_f \<and>
         market_price p = (bid_f + ask_f) / 2 \<and>
         (if is_call p then black_scholes_call S (strike_K p) (sigma_used p) r (t_used p)
          else black_scholes_put S (strike_K p) (sigma_used p) r (t_used p)) = Inr (bs_price p)))"
proof (intro conjI allI impI)
  fix e
  assume e: "getitem option ''vol'' = Inl e"
  show "\<exists>e'. derive E u r sd td S option = Inl e'"
  proof (cases "derive E u r sd td S option")
    case (Inl e')
    then show ?thesis by blast
  next
    case (Inr p)
    from derive_Inr[OF this] e show ?thesis
      by auto
  qed
next
  fix p
  assume "derive E u r sd td S option = Inr p"
  from derive_Inr[OF this]
  show "\<exists>vol bid ask bid_f ask_f.
         getitem option ''vol'' = Inr vol \<and>
         (if truthy vol then py_float E vol = Inr (sigma_used p) else sigma_used p = sd) \<and>
         getitem option ''bid'' = Inr bid \<and> py_float E bid = Inr bid_f \<and>
         getitem option ''ask'' = Inr ask \<and> py_float E ask = Inr ask_f \<and>
         market_price p = (bid_f + ask_f) / 2 \<and>
         (if is_call p then black_scholes_call S (strike_K p) (sigma_used p) r (t_used p)
          else black_scholes_put S (strike_K p) (sigma_used p) r (t_used p)) = Inr (bs_price p)"
    by blast
qed

theorem derive_sigma_and_market_price_witness:
  "(\<exists>p. derive (example_env ''AAPL'' ''2023-10-18'' (ok_response (success_body (JArr []))))
          ''AAPL'' 0.05 0.3 ''2023-10-18'' 175.84 (row_with_vol (JStr ''0.2500'')) = Inr p \<and>
        sigma_used p = 0.25 \<and> market_price p = (1 + 2) / 2) \<and>
   (\<exists>p. derive (example_env ''AAPL'' ''2023-10-18'' (ok_response (success_body (JArr []))))
          ''AAPL'' 0.05 0.3 ''2023-10-18'' 175.84 (row_with_vol (JStr ''0.0000'')) = Inr p \<and>
        sigma_used p = 0) \<and>
   (\<exists>p. derive (example_env ''AAPL'' ''2023-10-18'' (ok_response (success_body (JArr []))))
          ''AAPL'' 0.05 0.3 ''2023-10-18'' 175.84 (row_with_vol JNull) = Inr p \<and>
        sigma_used p = 0.3) \<and>
   (\<exists>p. derive (example_env ''AAPL'' ''2023-10-18'' (ok_response (success_body (JArr []))))
          ''AAPL'' 0.05 0.3 ''2023-10-18'' 175.84 (row_with_vol (JFloat 0)) = Inr p \<and>
        sigma_used p = 0.3) \<and>
   (\<exists>p. derive (example_env ''AAPL'' ''2023-10-18'' (ok_response (success_body (JArr []))))
          ''AAPL'' 0.05 0.3 ''2023-10-18'' 175.84 (row_with_vol (JInt 0)) = Inr p \<and>
        sigma_used p = 0.3) \<and>
   (\<exists>p. derive (example_env ''AAPL'' ''2023-10-18'' (ok_response (success_body (JArr []))))
          ''AAPL'' 0.05 0.3 ''2023-10-18'' 175.84 (row_with_vol (JStr [])) = Inr p \<and>
        sigma_used p = 0.3) \<and>
   (\<exists>e. derive (example_env ''AAPL'' ''2023-10-18'' (ok_response (success_body (JArr []))))
          ''AAPL'' 0.05 0.3 ''2023-10-18'' 175.84 example_row_no_vol = Inl e)"
proof -
  let ?E = "example_env ''AAPL'' ''2023-10-18'' (ok_response (success_body (JArr [])))"
  have fl: "float_of_str ?E = example_floats"
    by (simp add: example_env_def)
  have vol: "getitem (row_with_vol v) ''vol'' = Inr v" for v
    by (simp add: row_with_vol_def)
  have bid: "getitem (row_with_vol v) ''bid'' = Inr (JStr ''1.00'')"
    "getitem (row_with_vol v) ''ask'' = Inr (JStr ''2.00'')" for v
    by (simp_all add: row_with_vol_def)
  have fs: "py_float ?E (JStr ''1.00'') = Inr 1" "py_float ?E (JStr ''2.00'') = Inr 2"
    "py_float ?E (JStr ''0.2500'') = Inr 0.25" "py_float ?E (JStr ''0.0000'') = Inr 0"
    by (simp_all add: fl example_floats_def)
  note t = derive_sigma_and_market_price
    [of _ ?E "''AAPL''" "0.05" "0.3" "''2023-10-18''" "175.84", THEN conjunct2, rule_format]
  have 1: "\<exists>p. derive ?E ''AAPL'' 0.05 0.3 ''2023-10-18'' 175.84 (row_with_vol (JStr ''0.2500'')) = Inr p \<and>
        sigma_used p = 0.25 \<and> market_price p = (1 + 2) / 2"
  proof -
    from derive_truthy_vol[where u = "''AAPL''" and r = "0.05" and sd = "0.3", OF fl _ fs(3)] obtain p where
      p: "derive ?E ''AAPL'' 0.05 0.3 ''2023-10-18'' 175.84 (row_with_vol (JStr ''0.2500'')) = Inr p"
      by auto
    from t[OF p] have "sigma_used p = 0.25 \<and> market_price p = (1 + 2) / 2"
      by (auto simp: vol bid fl example_floats_def)
    with p show ?thesis by blast
  qed
  have 2: "\<exists>p. derive ?E ''AAPL'' 0.05 0.3 ''2023-10-18'' 175.84 (row_with_vol (JStr ''0.0000'')) = Inr p \<and>
        sigma_used p = 0"
  proof -
    from derive_truthy_vol[where u = "''AAPL''" and r = "0.05" and sd = "0.3", OF fl _ fs(4)] obtain p where
      p: "derive ?E ''AAPL'' 0.05 0.3 ''2023-10-18'' 175.84 (row_with_vol (JStr ''0.0000'')) = Inr p"
      by auto
    from t[OF p] have "sigma_used p = 0"
      by (auto simp: vol fl example_floats_def)
    with p show ?thesis by blast
  qed
  have 3: "\<exists>p. derive ?E ''AAPL'' 0.05 0.3 ''2023-10-18'' 175.84 (row_with_vol v) = Inr p \<and>
        sigma_used p = 0.3" if "\<not> truthy v" for v
  proof -
    from derive_falsy_vol[where u = "''AAPL''" and r = "0.05" and sd = "0.3", OF fl that] obtain p where
      p: "derive ?E ''AAPL'' 0.05 0.3 ''2023-10-18'' 175.84 (row_with_vol v) = Inr p"
      by auto
    from t[OF p] that have "sigma_used p = 0.3"
      by (auto simp: vol)
    with p show ?thesis by blast
  qed
  have 4: "\<exists>e. derive ?E ''AAPL'' 0.05 0.3 ''2023-10-18'' 175.84 example_row_no_vol = Inl e"
    using derive_sigma_and_market_price
      [of example_row_no_vol ?E "''AAPL''" "0.05" "0.3" "''2023-10-18''" "175.84", THEN conjunct1]
    by (simp add: example_row_no_vol_def)
  from 1 2 3[of JNull] 3[of "JFloat 0"] 3[of "JInt 0"] 3[of "JStr []"] 4 show ?thesis
    by simp
qed

text \<open>
  The claim C7 as stated fails: a row without the volatility field does not get the
  default volatility, it makes the scan raise; and a volatility that is present and
  truthy can be zero.
\<close>

theorem derive_missing_vol_raises:
  "derive (example_env ''AAPL'' ''2023-10-18'' (ok_response (success_body (JArr [example_row_no_vol]))))
     ''AAPL'' 0.05 0.3 ''2023-10-18'' 175.84 example_row_no_vol = Inl (KeyError ''vol'') \<and>
   scan_options
     (example_env ''AAPL'' ''2023-10-18'' (ok_response (success_body (JArr [example_row_no_vol]))))
     ''AAPL'' 0.05 0.3 ''2023-10-18'' [] = (Inl (KeyError ''vol''), []) \<and>
   (\<exists>p. derive
          (example_env ''AAPL'' ''2023-10-18'' (ok_response (success_body (JArr [example_row_zero_vol]))))
          ''AAPL'' 0.05 0.3 ''2023-10-18'' 175.84 example_row_zero_vol = Inr p \<and>
        sigma_used p = 0 \<and> sigma_used p \<noteq> 0.3)"
proof -
  let ?E = "example_env ''AAPL'' ''2023-10-18'' (ok_response (success_body (JArr [example_row_no_vol])))"
  have d: "derive ?E ''AAPL'' 0.05 0.3 ''2023-10-18'' 175.84 example_row_no_vol = Inl (KeyError ''vol'')"
    by (rule derive_no_vol) (simp add: example_env_def)
  have c: "classify ?E ''AAPL'' 0.05 0.3 ''2023-10-18'' 175.84 0 example_row_no_vol
      = Inl (KeyError ''vol'')"
    unfolding classify_def d bind_def by simp
  have "scan_rows ?E ''AAPL'' 0.05 0.3 ''2023-10-18'' 175.84 [example_row_no_vol] 0 [] []
      = (Inl (KeyError ''vol''), [])"
    unfolding scan_rows.simps c by simp
  then have "scan_options ?E ''AAPL'' 0.05 0.3 ''2023-10-18'' [] = (Inl (KeyError ''vol''), [])"
    unfolding scan_options_def fetch_example by simp
  moreover have "\<exists>p. derive
          (example_env ''AAPL'' ''2023-10-18'' (ok_response (success_body (JArr [example_row_zero_vol]))))
          ''AAPL'' 0.05 0.3 ''2023-10-18'' 175.84 example_row_zero_vol = Inr p \<and>
        sigma_used p = 0 \<and> sigma_used p \<noteq> 0.3"
    unfolding derive_zero_vol_row[of "example_env ''AAPL'' ''2023-10-18''
        (ok_response (success_body (JArr [example_row_zero_vol])))", OF example_env_floats]
    by simp
  ultimately show ?thesis
    using d by blast
qed

section \<open>The scan and its collaborators\<close>

text \<open>
  C9.  When the data source returns an empty chain, the scan returns the empty sequence
  without an exception and leaves the collection as it was: nothing is inserted.
\<close>

theorem scan_empty_chain:
  assumes "fetch_dolthub_options E u td 100 = Inr (JArr [])"
  shows "scan_options E u r sd td collection = (Inr [], collection)"
  using assms by (simp add: scan_options_def)

theorem scan_empty_chain_witness:
  "fetch_dolthub_options (example_env ''AAPL'' ''2023-10-18'' (ok_response (success_body (JArr []))))
     ''AAPL'' ''2023-10-18'' 100 = Inr (JArr []) \<and>
   scan_options (example_env ''AAPL'' ''2023-10-18'' (ok_response (success_body (JArr []))))
     ''AAPL'' 0.05 0.3 ''2023-10-18'' [] = (Inr [], [])"
  using scan_empty_chain [OF fetch_example [of "''AAPL''" "''2023-10-18''" "JArr []"],
      of "0.05" "0.3" "[]"]
  by (simp add: fetch_example)

text \<open>
  C5, as the code has it.  The scan fails as a whole, with nothing inserted, when the
  request raises, when the status is not 200, when the body is not JSON, and when the
  body is JSON but not an object.  A JSON object whose \<open>query_execution_status\<close> is not
  \<open>"Success"\<close>, or that has no \<open>rows\<close>, is treated like an empty result set: the scan
  returns the empty sequence without an exception.
\<close>

theorem scan_data_source_failures:
  "(\<forall>e. http_get E (dolthub_url u td 100) = Inl e \<longrightarrow>
        scan_options E u r sd td collection = (Inl e, collection)) \<and>
   (\<forall>response. http_get E (dolthub_url u td 100) = Inr response \<and> status_code response \<noteq> 200 \<longrightarrow>
        scan_options E u r sd td collection
          = (Inl (DoltHubAPIError (''DoltHub API error: '' @ text_body response)), collection)) \<and>
   (\<forall>response. http_get E (dolthub_url u td 100) = Inr response \<and> status_code response = 200 \<and>
        json_body response = None \<longrightarrow>
        scan_options E u r sd td collection = (Inl JSONDecodeError, collection)) \<and>
   (\<forall>response data. http_get E (dolthub_url u td 100) = Inr response \<and> status_code response = 200 \<and>
        json_body response = Some data \<and> (\<forall>kvs. data \<noteq> JObj kvs) \<longrightarrow>
        scan_options E u r sd td collection = (Inl AttributeError, collection)) \<and>
   (\<forall>response kvs. http_get E (dolthub_url u td 100) = Inr response \<and> status_code response = 200 \<and>
        json_body response = Some (JObj kvs) \<and>
        \<not> (map_of kvs ''query_execution_status'' = Some (JStr ''Success'') \<and>
           map_of kvs ''rows'' \<noteq> None) \<longrightarrow>
        scan_options E u r sd td collection = (Inr [], collection))"
proof (intro conjI allI impI)
  fix e
  assume "http_get E (dolthub_url u td 100) = Inl e"
  then show "scan_options E u r sd td collection = (Inl e, collection)"
    by (simp add: scan_options_def fetch_dolthub_options_def)
next
  fix response
  assume "http_get E (dolthub_url u td 100) = Inr response \<and> status_code response \<noteq> 200"
  then show "scan_options E u r sd td collection
      = (Inl (DoltHubAPIError (''DoltHub API error: '' @ text_body response)), collection)"
    by (simp add: scan_options_def fetch_dolthub_options_def)
next
  fix response
  assume "http_get E (dolthub_url u td 100) = Inr response \<and> status_code response = 200 \<and>
        json_body response = None"
  then show "scan_options E u r sd td collection = (Inl JSONDecodeError, collection)"
    by (simp add: scan_options_def fetch_dolthub_options_def)
next
  fix response data
  assume "http_get E (dolthub_url u td 100) = Inr response \<and> status_code response = 200 \<and>
        json_body response = Some data \<and> (\<forall>kvs. data \<noteq> JObj kvs)"
  then show "scan_options E u r sd td collection = (Inl AttributeError, collection)"
    by (cases data) (simp_all add: scan_options_def fetch_dolthub_options_def)
next
  fix response kvs
  assume "http_get E (dolthub_url u td 100) = Inr response \<and> status_code response = 200 \<and>
        json_body response = Some (JObj kvs) \<and>
        \<not> (map_of kvs ''query_execution_status'' = Some (JStr ''Success'') \<and>
           map_of kvs ''rows'' \<noteq> None)"
  then show "scan_options E u r sd td collection = (Inr [], collection)"
    by (auto simp: scan_options_def fetch_dolthub_options_def)
qed

theorem scan_data_source_failures_witness:
  "scan_options (example_env ''AAPL'' ''2023-10-18'' (ok_response (success_body (JArr [example_row]))))
     ''MSFT'' 0.05 0.3 ''2023-10-18'' [] = (Inl RequestException, []) \<and>
   scan_options (example_env ''AAPL'' ''2023-10-18''
       \<lparr>status_code = 500, text_body = ''Internal Server Error'', json_body = None\<rparr>)
     ''AAPL'' 0.05 0.3 ''2023-10-18'' []
     = (Inl (DoltHubAPIError ''DoltHub API error: Internal Server Error''), []) \<and>
   scan_options (example_env ''AAPL'' ''2023-10-18''
       \<lparr>status_code = 200, text_body = ''<html>'', json_body = None\<rparr>)
     ''AAPL'' 0.05 0.3 ''2023-10-18'' [] = (Inl JSONDecodeError, []) \<and>
   scan_options (example_env ''AAPL'' ''2023-10-18'' (ok_response (JArr [example_row])))
     ''AAPL'' 0.05 0.3 ''2023-10-18'' [] = (Inl AttributeError, []) \<and>
   scan_options (example_env ''AAPL'' ''2023-10-18'' (ok_response error_body))
     ''AAPL'' 0.05 0.3 ''2023-10-18'' [] = (Inr [], [])"
proof -
  have ne: "dolthub_url ''MSFT'' ''2023-10-18'' 100 \<noteq> dolthub_url ''AAPL'' ''2023-10-18'' 100"
    by (simp add: dolthub_url_def)
  note t = scan_data_source_failures [of _ _ "''2023-10-18''" "0.05" "0.3" "[]"]
  have "scan_options (example_env ''AAPL'' ''2023-10-18'' (ok_response (success_body (JArr [example_row]))))
     ''MSFT'' 0.05 0.3 ''2023-10-18'' [] = (Inl RequestException, [])"
    using t [of "example_env ''AAPL'' ''2023-10-18'' (ok_response (success_body (JArr [example_row])))"
        "''MSFT''"] ne
    by (simp add: example_env_def)
  moreover have "scan_options (example_env ''AAPL'' ''2023-10-18''
       \<lparr>status_code = 500, text_body = ''Internal Server Error'', json_body = None\<rparr>)
     ''AAPL'' 0.05 0.3 ''2023-10-18'' []
     = (Inl (DoltHubAPIError ''DoltHub API error: Internal Server Error''), [])"
    using t [of "example_env ''AAPL'' ''2023-10-18''
       \<lparr>status_code = 500, text_body = ''Internal Server Error'', json_body = None\<rparr>" "''AAPL''"]
    by (simp add: example_env_def)
  moreover have "scan_options (example_env ''AAPL'' ''2023-10-18''
       \<lparr>status_code = 200, text_body = ''<html>'', json_body = None\<rparr>)
     ''AAPL'' 0.05 0.3 ''2023-10-18'' [] = (Inl JSONDecodeError, [])"
    using t [of "example_env ''AAPL'' ''2023-10-18''
       \<lparr>status_code = 200, text_body = ''<html>'', json_body = None\<rparr>" "''AAPL''"]
    by (simp add: example_env_def)
  moreover have "scan_options (example_env ''AAPL'' ''2023-10-18'' (ok_response (JArr [example_row])))
     ''AAPL'' 0.05 0.3 ''2023-10-18'' [] = (Inl AttributeError, [])"
    using t [of "example_env ''AAPL'' ''2023-10-18'' (ok_response (JArr [example_row]))" "''AAPL''"]
    by (simp add: example_env_def ok_response_def)
  moreover have "scan_options (example_env ''AAPL'' ''2023-10-18'' (ok_response error_body))
     ''AAPL'' 0.05 0.3 ''2023-10-18'' [] = (Inr [], [])"
    using t [of "example_env ''AAPL'' ''2023-10-18'' (ok_response error_body)" "''AAPL''"]
    by (simp add: example_env_def ok_response_def error_body_def)
  ultimately show ?thesis
    by blast
qed

text \<open>The claim C5 as stated fails: a body that reports a failed query gives an empty
  success.\<close>

theorem scan_swallows_query_error:
  "scan_options (example_env ''AAPL'' ''2023-10-18'' (ok_response error_body))
     ''AAPL'' 0.05 0.3 ''2023-10-18'' [] = (Inr [], [])"
  by (simp add: scan_options_def fetch_example_error)

text \<open>
  C6, as the code has it.  The spot price is not an input of the scan: whatever the data
  source, ticker, rate, default volatility and date, every returned result records
  S = 175.84 and carries the theoretical price computed with that S.
\<close>

theorem scan_uses_fixed_S:
  assumes "scan_options E u r sd td collection = (Inr results, collection')"
  shows "\<forall>res \<in> set results. val_S res = 175.84 \<and>
     (if OptionType res = ''Call''
      then black_scholes_call 175.84 (val_K res) (val_sigma res) r (val_t res)
      else black_scholes_put 175.84 (val_K res) (val_sigma res) r (val_t res))
       = Inr (BlackScholesPrice res)"
proof
  fix res
  assume res: "res \<in> set results"
  from scan_options_Inr[OF assms] obtain options_data where
    "results = flagged E u r sd td 175.84 0 (py_iter options_data)"
    by blast
  with res in_flagged obtain j option where
    "classify E u r sd td 175.84 j option = Inr (Some res)"
    by blast
  from classify_Some[OF this] show "val_S res = 175.84 \<and>
     (if OptionType res = ''Call''
      then black_scholes_call 175.84 (val_K res) (val_sigma res) r (val_t res)
      else black_scholes_put 175.84 (val_K res) (val_sigma res) r (val_t res))
       = Inr (BlackScholesPrice res)" .
qed

theorem scan_uses_fixed_S_witness:
  "scan_options (example_env ''AAPL'' ''2023-10-18'' (ok_response (success_body (JArr [example_row]))))
     ''AAPL'' 0.05 0.3 ''2023-10-18'' []
     = (Inr [example_result ''AAPL'' (30 / 365)], [example_result ''AAPL'' (30 / 365)]) \<and>
   val_S (example_result ''AAPL'' (30 / 365)) = 175.84 \<and>
   black_scholes_call 175.84 100 0.25 0.05 (30 / 365)
     = Inr (BlackScholesPrice (example_result ''AAPL'' (30 / 365)))"
proof -
  have s: "scan_options (example_env ''AAPL'' ''2023-10-18'' (ok_response (success_body (JArr [example_row]))))
     ''AAPL'' 0.05 0.3 ''2023-10-18'' []
     = (Inr [example_result ''AAPL'' (30 / 365)], [example_result ''AAPL'' (30 / 365)])"
    by (rule scan_example_one[OF example_time]) simp
  from scan_uses_fixed_S[OF s] s show ?thesis
    by (simp add: example_result_def)
qed

text \<open>The claim C6 as stated fails: scans for different tickers, dates and default
  volatilities, none of which is given a spot price, all price against 175.84.\<close>

theorem scan_S_not_supplied:
  "scan_options (example_env ''AAPL'' ''2023-10-18'' (ok_response (success_body (JArr [example_row]))))
     ''AAPL'' 0.05 0.3 ''2023-10-18'' []
     = (Inr [example_result ''AAPL'' (30 / 365)], [example_result ''AAPL'' (30 / 365)]) \<and>
   scan_options (example_env ''MSFT'' ''2023-09-18'' (ok_response (success_body (JArr [example_row]))))
     ''MSFT'' 0.05 0.2 ''2023-09-18'' []
     = (Inr [example_result ''MSFT'' (60 / 365)], [example_result ''MSFT'' (60 / 365)]) \<and>
   val_S (example_result ''AAPL'' (30 / 365)) = 175.84 \<and>
   val_S (example_result ''MSFT'' (60 / 365)) = 175.84"
proof -
  have "scan_options (example_env ''AAPL'' ''2023-10-18'' (ok_response (success_body (JArr [example_row]))))
     ''AAPL'' 0.05 0.3 ''2023-10-18'' []
     = (Inr [example_result ''AAPL'' (30 / 365)], [example_result ''AAPL'' (30 / 365)])"
    by (rule scan_example_one[OF example_time]) simp
  moreover have "scan_options (example_env ''MSFT'' ''2023-09-18'' (ok_response (success_body (JArr [example_row]))))
     ''MSFT'' 0.05 0.2 ''2023-09-18'' []
     = (Inr [example_result ''MSFT'' (60 / 365)], [example_result ''MSFT'' (60 / 365)])"
    by (rule scan_example_one[OF example_time60]) simp
  ultimately show ?thesis
    by (simp add: example_result_def)
qed

text \<open>
  C10.  The scan sends its query with the fixed row limit 100, which it never overrides.
  With a data source that keeps to the limit of the query, a scan evaluates at most 100
  contracts, namely every row of the answer, and returns at most 100 results.
\<close>

theorem scan_at_most_100:
  assumes "keeps_limit E u td 100"
    and "scan_options E u r sd td collection = (Inr results, collection')"
  shows "\<exists>query options_data.
     dolthub_url u td 100 = query @ '' LIMIT 100'' \<and>
     fetch_dolthub_options E u td 100 = Inr options_data \<and>
     length (py_iter options_data) \<le> 100 \<and>
     results = flagged E u r sd td 175.84 0 (py_iter options_data) \<and>
     length results \<le> 100"
proof -
  from scan_options_Inr[OF assms(2)] obtain options_data where
    f: "fetch_dolthub_options E u td 100 = Inr options_data"
    and r: "results = flagged E u r sd td 175.84 0 (py_iter options_data)"
    by blast
  have n: "length (py_iter options_data) \<le> 100"
    using f assms(1)
    by (auto simp: fetch_dolthub_options_def keeps_limit_def
        split: sum.splits option.splits json.splits if_splits)
  have "length results \<le> length (py_iter options_data)"
    unfolding r by (rule length_flagged)
  with n have "length results \<le> 100"
    by simp
  with f r n dolthub_url_limit[of u td] show ?thesis
    by (intro exI[of _ "_ @ _"] exI[of _ options_data]) auto
qed

theorem scan_at_most_100_witness:
  "keeps_limit (example_env ''AAPL'' ''2023-10-18'' (ok_response (success_body (JArr [example_row]))))
     ''AAPL'' ''2023-10-18'' 100 \<and>
   scan_options (example_env ''AAPL'' ''2023-10-18'' (ok_response (success_body (JArr [example_row]))))
     ''AAPL'' 0.05 0.3 ''2023-10-18'' []
     = (Inr [example_result ''AAPL'' (30 / 365)], [example_result ''AAPL'' (30 / 365)]) \<and>
   fetch_dolthub_options
     (example_env ''AAPL'' ''2023-10-18'' (ok_response (success_body (JArr [example_row]))))
     ''AAPL'' ''2023-10-18'' 100 = Inr (JArr [example_row]) \<and>
   length [example_result ''AAPL'' (30 / 365)] \<le> 100"
proof -
  let ?E = "example_env ''AAPL'' ''2023-10-18'' (ok_response (success_body (JArr [example_row])))"
  have k: "keeps_limit ?E ''AAPL'' ''2023-10-18'' 100"
    by (simp add: keeps_limit_def example_env_def ok_response_def success_body_def)
  have s: "scan_options ?E ''AAPL'' 0.05 0.3 ''2023-10-18'' []
     = (Inr [example_result ''AAPL'' (30 / 365)], [example_result ''AAPL'' (30 / 365)])"
    by (rule scan_example_one[OF example_time]) simp
  from scan_at_most_100[OF k s] have "length [example_result ''AAPL'' (30 / 365)] \<le> 100"
    by (elim exE conjE)
  with k s show ?thesis
    by (simp add: fetch_example)
qed

end
